theory Spec2Isabelle
  imports Main "HOL-Library.AList"
begin

section \<open>Numbers rendered into text\<close>

text \<open>
  Template literals of the library put numbers into strings (the toast id
  \<^verbatim>\<open>`${TOAST_ID_PREFIX}${Date.now()}-${this.toastIdCounter}`\<close>, the error detail
  \<^verbatim>\<open>`Received: ${payload.durationMs}ms`\<close>). Clock readings and counters are \<open>nat\<close>,
  percentages and the visible maximum are \<open>int\<close>. A duration is a \<open>JsNumber\<close>
  (below): the service compares durations, and the comparisons of a JavaScript
  \<open>number\<close> are false at \<open>NaN\<close>. Fractions are outside the model.
\<close>

definition digit_char :: "nat \<Rightarrow> char" where
  "digit_char d = ''0123456789'' ! d"

fun dec :: "nat \<Rightarrow> string" where
  "dec n = (if n < 10 then [digit_char n] else dec (n div 10) @ [digit_char (n mod 10)])"

declare dec.simps [simp del]

definition show_int :: "int \<Rightarrow> string" where
  "show_int i = (if i < 0 then ''-'' @ dec (nat (- i)) else dec (nat i))"

section \<open>Numbers of the source\<close>

text \<open>
  A JavaScript \<open>number\<close> that holds a duration: \<open>NaN\<close>, an infinity or an integer
  (a number of milliseconds; a fraction is compared as the integers are and is left out).
  \<open>js_lt\<close>, \<open>js_le\<close> and \<open>js_eq\<close> are the operators \<open><\<close>, \<open><=\<close> and \<open>===\<close>: each
  is false as soon as an operand is \<open>NaN\<close>. \<open>Math_max\<close> is \<open>Math.max\<close> on two
  arguments: \<open>NaN\<close> as soon as an argument is. \<open>numberToString\<close> is what a template
  literal prints (an integer of 22 digits or more prints in exponent form in the source;
  the text is used in the details of an error only).
\<close>

datatype JsNumber = NaN | NegInfinity | Finite int | PosInfinity

fun js_lt :: "JsNumber \<Rightarrow> JsNumber \<Rightarrow> bool" where
  "js_lt NaN b = False"
| "js_lt a NaN = False"
| "js_lt PosInfinity b = False"
| "js_lt a NegInfinity = False"
| "js_lt NegInfinity b = True"
| "js_lt a PosInfinity = True"
| "js_lt (Finite x) (Finite y) = (x < y)"

definition js_eq :: "JsNumber \<Rightarrow> JsNumber \<Rightarrow> bool" where
  "js_eq a b = (a \<noteq> NaN \<and> b \<noteq> NaN \<and> a = b)"

definition js_le :: "JsNumber \<Rightarrow> JsNumber \<Rightarrow> bool" where
  "js_le a b = (js_lt a b \<or> js_eq a b)"

definition Math_max :: "JsNumber \<Rightarrow> JsNumber \<Rightarrow> JsNumber" where
  "Math_max a b = (if a = NaN \<or> b = NaN then NaN else if js_lt a b then b else a)"

fun numberToString :: "JsNumber \<Rightarrow> string" where
  "numberToString NaN = ''NaN''"
| "numberToString NegInfinity = ''-Infinity''"
| "numberToString (Finite i) = show_int i"
| "numberToString PosInfinity = ''Infinity''"

section \<open>Types of the library\<close>

subsection \<open>toast-error.type.ts\<close>

datatype ToastErrorCode =
    TOAST_NOT_FOUND
  | INVALID_DURATION
  | INVALID_PROGRESS_VALUE
  | MAXIMUM_TOASTS_EXCEEDED
  | INVALID_CONFIGURATION

record ToastError =
  err_code :: ToastErrorCode
  err_message :: string
  err_details :: "string option"

definition createToastError :: "ToastErrorCode \<Rightarrow> string \<Rightarrow> string option \<Rightarrow> ToastError" where
  "createToastError c m d = \<lparr> err_code = c, err_message = m, err_details = d \<rparr>"

fun TOAST_ERROR_MESSAGES :: "ToastErrorCode \<Rightarrow> string" where
  "TOAST_ERROR_MESSAGES TOAST_NOT_FOUND =
     ''The specified toast ID does not exist in the current toast collection.''"
| "TOAST_ERROR_MESSAGES INVALID_DURATION =
     ''Toast duration must be a non-negative number in milliseconds.''"
| "TOAST_ERROR_MESSAGES INVALID_PROGRESS_VALUE =
     ''Progress value must be between 0 and 100 inclusive.''"
| "TOAST_ERROR_MESSAGES MAXIMUM_TOASTS_EXCEEDED =
     ''Maximum number of visible toasts has been reached.''"
| "TOAST_ERROR_MESSAGES INVALID_CONFIGURATION =
     ''Invalid toast configuration provided.''"

subsection \<open>toast.type.ts\<close>

datatype ToastType = Info | Success | Warning | Danger

datatype ToastTheme = Light | Dark

datatype ToastPosition =
    TopRight | TopLeft | BottomRight | BottomLeft | TopCenter | BottomCenter

datatype ToastActionVariant = Primary | Secondary

text \<open>
  A click handler and a template reference are closures and objects of the host; the
  service only stores them, so each is an opaque token.
\<close>

type_synonym callback = nat
type_synonym TemplateRef = nat

record ToastAction =
  label :: string
  onClick :: callback
  variant :: ToastActionVariant

text \<open>An optional property of the payload is absent (\<open>undefined\<close>) as \<open>None\<close>.\<close>

record ToastPayload =
  p_message :: string
  p_title :: "string option"
  p_type :: "ToastType option"
  p_theme :: "ToastTheme option"
  p_durationMs :: "JsNumber option"
  p_dismissible :: "bool option"
  p_actions :: "ToastAction list option"
  p_styleClass :: "string option"
  p_iconTemplate :: "TemplateRef option"
  p_avatarUrl :: "string option"
  p_progressPercent :: "int option"
  p_position :: "ToastPosition option"

record Toast =
  t_id :: string
  t_createdAt :: nat
  t_message :: string
  t_title :: "string option"
  t_type :: ToastType
  t_theme :: ToastTheme
  t_durationMs :: JsNumber
  t_dismissible :: bool
  t_actions :: "ToastAction list"
  t_styleClass :: "string option"
  t_iconTemplate :: "TemplateRef option"
  t_avatarUrl :: "string option"
  t_progressPercent :: "int option"
  t_position :: ToastPosition

subsection \<open>toast-config.type.ts and toast.constants.ts\<close>

text \<open>
  The fields of the global configuration that \<open>DEFAULT_TOAST_CONFIG\<close> sets. The
  animation preset and the custom animation of the interface are never read by the
  service and are arguments of the animation service below.
\<close>

record ToastGlobalConfig =
  position :: ToastPosition
  theme :: ToastTheme
  defaultDurationMs :: JsNumber
  maximumVisibleToasts :: int
  newestOnTop :: bool
  pauseOnHover :: bool
  dismissibleByDefault :: bool
  defaultType :: ToastType

record ToastGlobalConfigPartial =
  o_position :: "ToastPosition option"
  o_theme :: "ToastTheme option"
  o_defaultDurationMs :: "JsNumber option"
  o_maximumVisibleToasts :: "int option"
  o_newestOnTop :: "bool option"
  o_pauseOnHover :: "bool option"
  o_dismissibleByDefault :: "bool option"
  o_defaultType :: "ToastType option"

definition TOAST_AUTO_DISMISS_DELAY_MS :: int where
  "TOAST_AUTO_DISMISS_DELAY_MS = 5000"

definition TOAST_MINIMUM_DURATION_MS :: int where
  "TOAST_MINIMUM_DURATION_MS = 1000"

definition MAXIMUM_VISIBLE_TOASTS :: int where
  "MAXIMUM_VISIBLE_TOASTS = 5"

definition PROGRESS_MINIMUM_PERCENT :: int where
  "PROGRESS_MINIMUM_PERCENT = 0"

definition PROGRESS_MAXIMUM_PERCENT :: int where
  "PROGRESS_MAXIMUM_PERCENT = 100"

definition TOAST_ID_PREFIX :: string where
  "TOAST_ID_PREFIX = ''toastly-''"

definition DEFAULT_TOAST_CONFIG :: ToastGlobalConfig where
  "DEFAULT_TOAST_CONFIG =
     \<lparr> position = BottomRight,
       theme = Light,
       defaultDurationMs = Finite TOAST_AUTO_DISMISS_DELAY_MS,
       maximumVisibleToasts = MAXIMUM_VISIBLE_TOASTS,
       newestOnTop = True,
       pauseOnHover = True,
       dismissibleByDefault = True,
       defaultType = Info \<rparr>"

text \<open>
  The constructor of the service: \<^verbatim>\<open>{ ...DEFAULT_TOAST_CONFIG, ...providedConfig }\<close>. A
  property the provided object does not have keeps its default; nothing is validated.
\<close>

definition mergeConfig :: "ToastGlobalConfigPartial option \<Rightarrow> ToastGlobalConfig" where
  "mergeConfig provided =
     (case provided of
        None \<Rightarrow> DEFAULT_TOAST_CONFIG
      | Some c \<Rightarrow>
          \<lparr> position = (case o_position c of Some v \<Rightarrow> v | None \<Rightarrow> position DEFAULT_TOAST_CONFIG),
            theme = (case o_theme c of Some v \<Rightarrow> v | None \<Rightarrow> theme DEFAULT_TOAST_CONFIG),
            defaultDurationMs =
              (case o_defaultDurationMs c of Some v \<Rightarrow> v
               | None \<Rightarrow> defaultDurationMs DEFAULT_TOAST_CONFIG),
            maximumVisibleToasts =
              (case o_maximumVisibleToasts c of Some v \<Rightarrow> v
               | None \<Rightarrow> maximumVisibleToasts DEFAULT_TOAST_CONFIG),
            newestOnTop =
              (case o_newestOnTop c of Some v \<Rightarrow> v | None \<Rightarrow> newestOnTop DEFAULT_TOAST_CONFIG),
            pauseOnHover =
              (case o_pauseOnHover c of Some v \<Rightarrow> v | None \<Rightarrow> pauseOnHover DEFAULT_TOAST_CONFIG),
            dismissibleByDefault =
              (case o_dismissibleByDefault c of Some v \<Rightarrow> v
               | None \<Rightarrow> dismissibleByDefault DEFAULT_TOAST_CONFIG),
            defaultType =
              (case o_defaultType c of Some v \<Rightarrow> v | None \<Rightarrow> defaultType DEFAULT_TOAST_CONFIG) \<rparr>)"

section \<open>The host's timers\<close>

text \<open>
  \<open>setTimeout\<close> and \<open>clearTimeout\<close> belong to the host. The model keeps the host's
  table of pending one-shot timers: each entry has the handle \<open>setTimeout\<close> returned,
  the id its callback passes to \<open>dismiss\<close>, and the delay it was set with. Handles are
  fresh numbers. There is no clock: a timer is pending until it is cleared or fires.
\<close>

record Timer =
  timer_handle :: nat
  timer_toastId :: string
  timer_delayMs :: JsNumber

section \<open>toast.service.ts\<close>

text \<open>
  The private fields of \<open>ToastService\<close>, and the host's timer table. \<open>activeTimers\<close>
  is a JavaScript \<open>Map\<close>: an association list in insertion order.
\<close>

record ServiceState =
  toastIdCounter :: nat
  activeTimers :: "(string \<times> nat) list"
  toastsSignal :: "Toast list"
  pendingTimeouts :: "Timer list"
  nextTimerHandle :: nat

definition initialState :: ServiceState where
  "initialState =
     \<lparr> toastIdCounter = 0, activeTimers = [], toastsSignal = [],
       pendingTimeouts = [], nextTimerHandle = 1 \<rparr>"

definition setTimeout :: "string \<Rightarrow> JsNumber \<Rightarrow> ServiceState \<Rightarrow> nat \<times> ServiceState" where
  "setTimeout toastId delayMs s =
     (nextTimerHandle s,
      s\<lparr> pendingTimeouts :=
           pendingTimeouts s @
             [\<lparr> timer_handle = nextTimerHandle s, timer_toastId = toastId,
                timer_delayMs = delayMs \<rparr>],
         nextTimerHandle := Suc (nextTimerHandle s) \<rparr>)"

definition clearTimeout :: "nat \<Rightarrow> ServiceState \<Rightarrow> ServiceState" where
  "clearTimeout h s =
     s\<lparr> pendingTimeouts := filter (\<lambda>t. timer_handle t \<noteq> h) (pendingTimeouts s) \<rparr>"

subsection \<open>The derived signals\<close>

definition toasts :: "ServiceState \<Rightarrow> Toast list" where
  "toasts s = toastsSignal s"

text \<open>
  \<open>Array.prototype.slice(start, end)\<close> on integral arguments: a negative index counts
  from the end, and both are clamped into the array. \<open>slice1\<close> is the call with
  \<open>start\<close> alone.
\<close>

definition relativeIndex :: "int \<Rightarrow> nat \<Rightarrow> nat" where
  "relativeIndex i len = (if i < 0 then nat (max (int len + i) 0) else min (nat i) len)"

definition slice :: "'a list \<Rightarrow> int \<Rightarrow> int \<Rightarrow> 'a list" where
  "slice xs start end =
     (let k = relativeIndex start (length xs); final = relativeIndex end (length xs)
      in take (final - k) (drop k xs))"

definition slice1 :: "'a list \<Rightarrow> int \<Rightarrow> 'a list" where
  "slice1 xs start = drop (relativeIndex start (length xs)) xs"

definition visibleToasts :: "ToastGlobalConfig \<Rightarrow> ServiceState \<Rightarrow> Toast list" where
  "visibleToasts cfg s =
     (let allToasts = toastsSignal s; maxVisible = maximumVisibleToasts cfg
      in if newestOnTop cfg then slice allToasts 0 maxVisible
         else slice1 allToasts (- maxVisible))"

subsection \<open>Validation\<close>

definition validateProgressValue :: "int \<Rightarrow> ToastError + unit" where
  "validateProgressValue progressPercent =
     (let isValidProgress =
            (progressPercent \<ge> PROGRESS_MINIMUM_PERCENT \<and> progressPercent \<le> PROGRESS_MAXIMUM_PERCENT)
      in if \<not> isValidProgress
         then Inl (createToastError INVALID_PROGRESS_VALUE
                     (TOAST_ERROR_MESSAGES INVALID_PROGRESS_VALUE)
                     (Some (''Received: '' @ show_int progressPercent @ ''%'')))
         else Inr ())"

text \<open>
  The two checks of \<open>validatePayload\<close> run in the order of the source: the duration
  first, and the progress value only when the duration did not throw.
\<close>

definition validatePayload :: "ToastPayload \<Rightarrow> ToastError + unit" where
  "validatePayload payload =
     (case (case p_durationMs payload of
              Some d \<Rightarrow>
                if js_lt d (Finite 0)
                then Some (createToastError INVALID_DURATION
                             (TOAST_ERROR_MESSAGES INVALID_DURATION)
                             (Some (''Received: '' @ numberToString d @ ''ms'')))
                else None
            | None \<Rightarrow> None) of
        Some e \<Rightarrow> Inl e
      | None \<Rightarrow>
          (case p_progressPercent payload of
             Some v \<Rightarrow> validateProgressValue v
           | None \<Rightarrow> Inr ()))"

subsection \<open>Toast creation\<close>

text \<open>\<open>Date.now()\<close> is read twice while a toast is made; both readings are arguments.\<close>

definition generateToastId :: "nat \<Rightarrow> ServiceState \<Rightarrow> string \<times> ServiceState" where
  "generateToastId now s =
     (let s' = s\<lparr> toastIdCounter := toastIdCounter s + 1 \<rparr>
      in (TOAST_ID_PREFIX @ dec now @ ''-'' @ dec (toastIdCounter s'), s'))"

definition resolveDuration :: "ToastGlobalConfig \<Rightarrow> JsNumber option \<Rightarrow> JsNumber" where
  "resolveDuration cfg providedDurationMs =
     (case providedDurationMs of
        None \<Rightarrow> defaultDurationMs cfg
      | Some d \<Rightarrow>
          if js_eq d (Finite 0) then Finite 0
          else Math_max d (Finite TOAST_MINIMUM_DURATION_MS))"

definition createToastFromPayload ::
  "ToastGlobalConfig \<Rightarrow> nat \<Rightarrow> nat \<Rightarrow> ToastPayload \<Rightarrow> ServiceState \<Rightarrow> Toast \<times> ServiceState" where
  "createToastFromPayload cfg nowId nowCreated payload s =
     (let (toastId, s') = generateToastId nowId s;
          toastType = (case p_type payload of Some v \<Rightarrow> v | None \<Rightarrow> defaultType cfg);
          durationMs = resolveDuration cfg (p_durationMs payload);
          pos = (case p_position payload of Some v \<Rightarrow> v | None \<Rightarrow> position cfg)
      in (\<lparr> t_id = toastId,
            t_createdAt = nowCreated,
            t_message = p_message payload,
            t_title = p_title payload,
            t_type = toastType,
            t_theme = (case p_theme payload of Some v \<Rightarrow> v | None \<Rightarrow> theme cfg),
            t_durationMs = durationMs,
            t_dismissible =
              (case p_dismissible payload of Some v \<Rightarrow> v | None \<Rightarrow> dismissibleByDefault cfg),
            t_actions = (case p_actions payload of Some v \<Rightarrow> v | None \<Rightarrow> []),
            t_styleClass = p_styleClass payload,
            t_iconTemplate = p_iconTemplate payload,
            t_avatarUrl = p_avatarUrl payload,
            t_progressPercent = p_progressPercent payload,
            t_position = pos \<rparr>, s'))"

subsection \<open>Collection management\<close>

definition addToast :: "ToastGlobalConfig \<Rightarrow> Toast \<Rightarrow> ServiceState \<Rightarrow> ServiceState" where
  "addToast cfg toast s =
     s\<lparr> toastsSignal :=
           (if newestOnTop cfg then toast # toastsSignal s else toastsSignal s @ [toast]) \<rparr>"

definition removeToast :: "string \<Rightarrow> ServiceState \<Rightarrow> ServiceState" where
  "removeToast toastId s =
     s\<lparr> toastsSignal := filter (\<lambda>toast. t_id toast \<noteq> toastId) (toastsSignal s) \<rparr>"

subsection \<open>Timer management\<close>

definition scheduleAutoDismissIfNeeded :: "Toast \<Rightarrow> ServiceState \<Rightarrow> ServiceState" where
  "scheduleAutoDismissIfNeeded toast s =
     (if js_le (t_durationMs toast) (Finite 0) then s
      else (let (timerId, s') = setTimeout (t_id toast) (t_durationMs toast) s
            in s'\<lparr> activeTimers := AList.update (t_id toast) timerId (activeTimers s') \<rparr>))"

definition clearTimerForToast :: "string \<Rightarrow> ServiceState \<Rightarrow> ServiceState" where
  "clearTimerForToast toastId s =
     (case map_of (activeTimers s) toastId of
        None \<Rightarrow> s
      | Some timerId \<Rightarrow>
          (let s' = clearTimeout timerId s
           in s'\<lparr> activeTimers := AList.delete toastId (activeTimers s') \<rparr>))"

definition clearAllTimers :: "ServiceState \<Rightarrow> ServiceState" where
  "clearAllTimers s =
     (let s' = fold (\<lambda>(toastId, timerId). clearTimeout timerId) (activeTimers s) s
      in s'\<lparr> activeTimers := [] \<rparr>)"

subsection \<open>Public operations\<close>

text \<open>
  An operation that can throw returns the error or its value together with the state
  it leaves behind; the others return the state. The method \<open>show\<close> is \<open>show_toast\<close>
  here, \<open>show\<close> being a word of the proof language.
\<close>

definition show_toast ::
  "ToastGlobalConfig \<Rightarrow> nat \<Rightarrow> nat \<Rightarrow> ToastPayload \<Rightarrow> ServiceState
     \<Rightarrow> (ToastError + string) \<times> ServiceState" where
  "show_toast cfg nowId nowCreated payload s =
     (case validatePayload payload of
        Inl e \<Rightarrow> (Inl e, s)
      | Inr _ \<Rightarrow>
          (let (toast, s1) = createToastFromPayload cfg nowId nowCreated payload s;
               s2 = addToast cfg toast s1;
               s3 = scheduleAutoDismissIfNeeded toast s2
           in (Inr (t_id toast), s3)))"

definition dismiss :: "string \<Rightarrow> ServiceState \<Rightarrow> ServiceState" where
  "dismiss toastId s = removeToast toastId (clearTimerForToast toastId s)"

definition dismissAll :: "ServiceState \<Rightarrow> ServiceState" where
  "dismissAll s = (clearAllTimers s)\<lparr> toastsSignal := [] \<rparr>"

definition updateProgress ::
  "string \<Rightarrow> int \<Rightarrow> ServiceState \<Rightarrow> (ToastError + unit) \<times> ServiceState" where
  "updateProgress toastId progressPercent s =
     (case validateProgressValue progressPercent of
        Inl e \<Rightarrow> (Inl e, s)
      | Inr _ \<Rightarrow>
          (Inr (),
           s\<lparr> toastsSignal :=
                map (\<lambda>toast. if t_id toast = toastId
                              then toast\<lparr> t_progressPercent := Some progressPercent \<rparr>
                              else toast)
                    (toastsSignal s) \<rparr>))"

definition pauseTimer :: "string \<Rightarrow> ServiceState \<Rightarrow> ServiceState" where
  "pauseTimer toastId s = clearTimerForToast toastId s"

definition resumeTimer :: "string \<Rightarrow> ServiceState \<Rightarrow> ServiceState" where
  "resumeTimer toastId s =
     (case find (\<lambda>t. t_id t = toastId) (toastsSignal s) of
        Some toast \<Rightarrow>
          if js_lt (Finite 0) (t_durationMs toast) then scheduleAutoDismissIfNeeded toast s else s
      | None \<Rightarrow> s)"

text \<open>
  The convenience methods build \<^verbatim>\<open>{ ...options, message, type }\<close>: the options, when
  given, with the message and the type set over them. \<open>messagePayload msg\<close> is the
  payload \<^verbatim>\<open>{ message: msg }\<close>.
\<close>

definition messagePayload :: "string \<Rightarrow> ToastPayload" where
  "messagePayload msg =
     \<lparr> p_message = msg, p_title = None, p_type = None, p_theme = None,
       p_durationMs = None, p_dismissible = None, p_actions = None,
       p_styleClass = None, p_iconTemplate = None, p_avatarUrl = None,
       p_progressPercent = None, p_position = None \<rparr>"

definition info ::
  "ToastGlobalConfig \<Rightarrow> nat \<Rightarrow> nat \<Rightarrow> string \<Rightarrow> ToastPayload option \<Rightarrow> ServiceState
     \<Rightarrow> (ToastError + string) \<times> ServiceState" where
  "info cfg nowId nowCreated msg options s =
     show_toast cfg nowId nowCreated
       ((case options of Some p \<Rightarrow> p | None \<Rightarrow> messagePayload msg)
        \<lparr> p_message := msg, p_type := Some Info \<rparr>) s"

definition success ::
  "ToastGlobalConfig \<Rightarrow> nat \<Rightarrow> nat \<Rightarrow> string \<Rightarrow> ToastPayload option \<Rightarrow> ServiceState
     \<Rightarrow> (ToastError + string) \<times> ServiceState" where
  "success cfg nowId nowCreated msg options s =
     show_toast cfg nowId nowCreated
       ((case options of Some p \<Rightarrow> p | None \<Rightarrow> messagePayload msg)
        \<lparr> p_message := msg, p_type := Some Success \<rparr>) s"

definition warning ::
  "ToastGlobalConfig \<Rightarrow> nat \<Rightarrow> nat \<Rightarrow> string \<Rightarrow> ToastPayload option \<Rightarrow> ServiceState
     \<Rightarrow> (ToastError + string) \<times> ServiceState" where
  "warning cfg nowId nowCreated msg options s =
     show_toast cfg nowId nowCreated
       ((case options of Some p \<Rightarrow> p | None \<Rightarrow> messagePayload msg)
        \<lparr> p_message := msg, p_type := Some Warning \<rparr>) s"

definition danger ::
  "ToastGlobalConfig \<Rightarrow> nat \<Rightarrow> nat \<Rightarrow> string \<Rightarrow> ToastPayload option \<Rightarrow> ServiceState
     \<Rightarrow> (ToastError + string) \<times> ServiceState" where
  "danger cfg nowId nowCreated msg options s =
     show_toast cfg nowId nowCreated
       ((case options of Some p \<Rightarrow> p | None \<Rightarrow> messagePayload msg)
        \<lparr> p_message := msg, p_type := Some Danger \<rparr>) s"

text \<open>
  A pending timer fires: the host drops it from its table and runs the callback,
  \<open>this.dismiss(toast.id)\<close>. A handle that is not pending does nothing.
\<close>

definition fireTimer :: "nat \<Rightarrow> ServiceState \<Rightarrow> ServiceState" where
  "fireTimer h s =
     (case find (\<lambda>t. timer_handle t = h) (pendingTimeouts s) of
        None \<Rightarrow> s
      | Some t \<Rightarrow> dismiss (timer_toastId t) (clearTimeout h s))"

section \<open>Events of the service\<close>

text \<open>
  Everything that can happen to a service instance: the calls of its public methods and
  the host firing one of the pending timers, any of them at any moment. A call to
  \<open>show\<close> or \<open>updateProgress\<close> that throws leaves the state as it was.
\<close>

datatype Event =
    Show nat nat ToastPayload
  | Dismiss string
  | DismissAll
  | UpdateProgress string int
  | PauseTimer string
  | ResumeTimer string
  | TimerFires nat

fun step :: "ToastGlobalConfig \<Rightarrow> Event \<Rightarrow> ServiceState \<Rightarrow> ServiceState" where
  "step cfg (Show nowId nowCreated payload) s = snd (show_toast cfg nowId nowCreated payload s)"
| "step cfg (Dismiss toastId) s = dismiss toastId s"
| "step cfg DismissAll s = dismissAll s"
| "step cfg (UpdateProgress toastId percent) s = snd (updateProgress toastId percent s)"
| "step cfg (PauseTimer toastId) s = pauseTimer toastId s"
| "step cfg (ResumeTimer toastId) s = resumeTimer toastId s"
| "step cfg (TimerFires h) s = fireTimer h s"

definition run :: "ToastGlobalConfig \<Rightarrow> Event list \<Rightarrow> ServiceState \<Rightarrow> ServiceState" where
  "run cfg evs s = fold (step cfg) evs s"

inductive reachable :: "ToastGlobalConfig \<Rightarrow> ServiceState \<Rightarrow> bool" for cfg where
  reachable_init: "reachable cfg initialState"
| reachable_step: "reachable cfg s \<Longrightarrow> reachable cfg (step cfg e s)"

text \<open>Successive calls of \<open>show\<close>, with the result of each call in order.\<close>

fun showEach ::
  "ToastGlobalConfig \<Rightarrow> (nat \<times> nat \<times> ToastPayload) list \<Rightarrow> ServiceState
     \<Rightarrow> (ToastError + string) list \<times> ServiceState" where
  "showEach cfg [] s = ([], s)"
| "showEach cfg ((nowId, nowCreated, payload) # calls) s =
     (let (r, s1) = show_toast cfg nowId nowCreated payload s;
          (rs, s2) = showEach cfg calls s1
      in (r # rs, s2))"

section \<open>animation.constants.ts, the presets and animation.service.ts\<close>

datatype AnimationPreset = Slide | Fade | Bounce | NoAnimation

datatype AnimationDirection = Left | Right | Top | Bottom

definition ANIMATION_DEFAULT_DURATION_MS :: int where
  "ANIMATION_DEFAULT_DURATION_MS = 300"

definition ANIMATION_REDUCED_MOTION_DURATION_MS :: int where
  "ANIMATION_REDUCED_MOTION_DURATION_MS = 100"

definition ANIMATION_DEFAULT_EASING :: string where
  "ANIMATION_DEFAULT_EASING = ''cubic-bezier(0.4, 0, 0.2, 1)''"

definition ANIMATION_BOUNCE_EASING :: string where
  "ANIMATION_BOUNCE_EASING = ''cubic-bezier(0.34, 1.56, 0.64, 1)''"

definition ANIMATION_SLIDE_DISTANCE_PX :: nat where
  "ANIMATION_SLIDE_DISTANCE_PX = 100"

text \<open>The two scale constants and the keyframe offset are fractions: kept as the source writes them.\<close>

definition ANIMATION_BOUNCE_SCALE_START :: string where
  "ANIMATION_BOUNCE_SCALE_START = ''0.9''"

definition ANIMATION_BOUNCE_SCALE_OVERSHOOT :: string where
  "ANIMATION_BOUNCE_SCALE_OVERSHOOT = ''1.02''"

definition DEFAULT_ANIMATION_PRESET :: AnimationPreset where
  "DEFAULT_ANIMATION_PRESET = Slide"

definition REDUCED_MOTION_PRESET :: AnimationPreset where
  "REDUCED_MOTION_PRESET = Fade"

text \<open>
  What a call does to the element it is given: it hands the element to a custom
  callback, sets the element's opacity style, or starts \<open>element.animate\<close> with
  keyframes and options.
\<close>

record Keyframe =
  kf_opacity :: nat
  kf_transform :: "string option"
  kf_offset :: "string option"

record KeyframeOptions =
  duration :: int
  easing :: string
  fill :: string

datatype ElementEffect =
    InvokeCustom callback
  | SetOpacity string
  | Animate "Keyframe list" KeyframeOptions

record AnimationPresetDefinition =
  enter :: "AnimationDirection \<Rightarrow> int \<Rightarrow> string \<Rightarrow> ElementEffect"
  leave :: "AnimationDirection \<Rightarrow> int \<Rightarrow> string \<Rightarrow> ElementEffect"

record CustomAnimation =
  custom_enter :: "callback option"
  custom_leave :: "callback option"

definition fadeAnimation :: AnimationPresetDefinition where
  "fadeAnimation =
     \<lparr> enter = (\<lambda>direction durationMs easingValue.
         Animate
           [\<lparr> kf_opacity = 0, kf_transform = None, kf_offset = None \<rparr>,
            \<lparr> kf_opacity = 1, kf_transform = None, kf_offset = None \<rparr>]
           \<lparr> duration = durationMs, easing = easingValue, fill = ''forwards'' \<rparr>),
       leave = (\<lambda>direction durationMs easingValue.
         Animate
           [\<lparr> kf_opacity = 1, kf_transform = None, kf_offset = None \<rparr>,
            \<lparr> kf_opacity = 0, kf_transform = None, kf_offset = None \<rparr>]
           \<lparr> duration = durationMs, easing = easingValue, fill = ''forwards'' \<rparr>) \<rparr>"

definition bounceAnimation :: AnimationPresetDefinition where
  "bounceAnimation =
     \<lparr> enter = (\<lambda>direction durationMs easingValue.
         Animate
           [\<lparr> kf_opacity = 0,
              kf_transform = Some (''scale('' @ ANIMATION_BOUNCE_SCALE_START @ '')''),
              kf_offset = None \<rparr>,
            \<lparr> kf_opacity = 1,
              kf_transform = Some (''scale('' @ ANIMATION_BOUNCE_SCALE_OVERSHOOT @ '')''),
              kf_offset = Some ''0.7'' \<rparr>,
            \<lparr> kf_opacity = 1, kf_transform = Some ''scale(1)'', kf_offset = None \<rparr>]
           \<lparr> duration = durationMs, easing = ANIMATION_BOUNCE_EASING, fill = ''forwards'' \<rparr>),
       leave = (\<lambda>direction durationMs easingValue.
         Animate
           [\<lparr> kf_opacity = 1, kf_transform = Some ''scale(1)'', kf_offset = None \<rparr>,
            \<lparr> kf_opacity = 0,
              kf_transform = Some (''scale('' @ ANIMATION_BOUNCE_SCALE_START @ '')''),
              kf_offset = None \<rparr>]
           \<lparr> duration = durationMs, easing = easingValue, fill = ''forwards'' \<rparr>) \<rparr>"

fun getTranslateValue :: "AnimationDirection \<Rightarrow> nat \<Rightarrow> string" where
  "getTranslateValue Left distance = ''translateX(-'' @ dec distance @ ''px)''"
| "getTranslateValue Right distance = ''translateX('' @ dec distance @ ''px)''"
| "getTranslateValue Top distance = ''translateY(-'' @ dec distance @ ''px)''"
| "getTranslateValue Bottom distance = ''translateY('' @ dec distance @ ''px)''"

definition slideAnimation :: AnimationPresetDefinition where
  "slideAnimation =
     \<lparr> enter = (\<lambda>direction durationMs easingValue.
         (let startTransform = getTranslateValue direction ANIMATION_SLIDE_DISTANCE_PX
          in Animate
               [\<lparr> kf_opacity = 0, kf_transform = Some startTransform, kf_offset = None \<rparr>,
                \<lparr> kf_opacity = 1, kf_transform = Some ''translate(0)'', kf_offset = None \<rparr>]
               \<lparr> duration = durationMs, easing = easingValue, fill = ''forwards'' \<rparr>)),
       leave = (\<lambda>direction durationMs easingValue.
         (let endTransform = getTranslateValue direction ANIMATION_SLIDE_DISTANCE_PX
          in Animate
               [\<lparr> kf_opacity = 1, kf_transform = Some ''translate(0)'', kf_offset = None \<rparr>,
                \<lparr> kf_opacity = 0, kf_transform = Some endTransform, kf_offset = None \<rparr>]
               \<lparr> duration = durationMs, easing = easingValue, fill = ''forwards'' \<rparr>)) \<rparr>"

fun PRESET_MAP :: "AnimationPreset \<Rightarrow> AnimationPresetDefinition option" where
  "PRESET_MAP Slide = Some slideAnimation"
| "PRESET_MAP Fade = Some fadeAnimation"
| "PRESET_MAP Bounce = Some bounceAnimation"
| "PRESET_MAP NoAnimation = None"

text \<open>
  A position is one of six strings, and the service looks into the string:
  \<open>String.prototype.startsWith\<close> and \<open>String.prototype.includes\<close>.
\<close>

fun positionString :: "ToastPosition \<Rightarrow> string" where
  "positionString TopRight = ''top-right''"
| "positionString TopLeft = ''top-left''"
| "positionString BottomRight = ''bottom-right''"
| "positionString BottomLeft = ''bottom-left''"
| "positionString TopCenter = ''top-center''"
| "positionString BottomCenter = ''bottom-center''"

definition startsWith :: "string \<Rightarrow> string \<Rightarrow> bool" where
  "startsWith str searchString = (take (length searchString) str = searchString)"

fun str_includes :: "string \<Rightarrow> string \<Rightarrow> bool" where
  "str_includes [] searchString = (searchString = [])"
| "str_includes (c # cs) searchString =
     (startsWith (c # cs) searchString \<or> str_includes cs searchString)"

definition getDirectionFromPosition :: "string \<Rightarrow> AnimationDirection" where
  "getDirectionFromPosition pos =
     (if str_includes pos ''left'' then Left
      else if str_includes pos ''right'' then Right
      else if startsWith pos ''top'' then Top
      else Bottom)"

text \<open>
  \<open>prefersReducedMotion\<close> is a signal the service sets once, when it is created, from
  \<open>detectReducedMotion\<close>: false without a \<open>window\<close> or without \<open>window.matchMedia\<close>,
  else what the media query \<^verbatim>\<open>(prefers-reduced-motion: reduce)\<close> matches. The host is
  those three facts. An omitted \<open>preset\<close> takes the parameter's default.
\<close>

record Host =
  windowDefined :: bool
  matchMediaIsFunction :: bool
  reduceMotionMatches :: bool

definition detectReducedMotion :: "Host \<Rightarrow> bool" where
  "detectReducedMotion host =
     (if \<not> windowDefined host then False
      else if \<not> matchMediaIsFunction host then False
      else reduceMotionMatches host)"

definition runEnterAnimation ::
  "bool \<Rightarrow> ToastPosition \<Rightarrow> AnimationPreset option \<Rightarrow> CustomAnimation option
     \<Rightarrow> int option \<Rightarrow> string option \<Rightarrow> ElementEffect" where
  "runEnterAnimation prefersReducedMotion pos presetArg custom durationMs easingArg =
     (let preset = (case presetArg of Some p \<Rightarrow> p | None \<Rightarrow> DEFAULT_ANIMATION_PRESET)
      in case (case custom of Some c \<Rightarrow> custom_enter c | None \<Rightarrow> None) of
           Some callback \<Rightarrow> InvokeCustom callback
         | None \<Rightarrow>
             (let effectivePreset = (if prefersReducedMotion then REDUCED_MOTION_PRESET else preset)
              in if effectivePreset = NoAnimation then SetOpacity ''1''
                 else case PRESET_MAP effectivePreset of
                        None \<Rightarrow> SetOpacity ''1''
                      | Some presetDef \<Rightarrow>
                          (let direction = getDirectionFromPosition (positionString pos);
                               dur = (if prefersReducedMotion
                                      then ANIMATION_REDUCED_MOTION_DURATION_MS
                                      else (case durationMs of Some d \<Rightarrow> d
                                            | None \<Rightarrow> ANIMATION_DEFAULT_DURATION_MS));
                               easingValue = (case easingArg of Some e \<Rightarrow> e
                                              | None \<Rightarrow> ANIMATION_DEFAULT_EASING)
                           in enter presetDef direction dur easingValue)))"

definition runLeaveAnimation ::
  "bool \<Rightarrow> ToastPosition \<Rightarrow> AnimationPreset option \<Rightarrow> CustomAnimation option
     \<Rightarrow> int option \<Rightarrow> string option \<Rightarrow> ElementEffect" where
  "runLeaveAnimation prefersReducedMotion pos presetArg custom durationMs easingArg =
     (let preset = (case presetArg of Some p \<Rightarrow> p | None \<Rightarrow> DEFAULT_ANIMATION_PRESET)
      in case (case custom of Some c \<Rightarrow> custom_leave c | None \<Rightarrow> None) of
           Some callback \<Rightarrow> InvokeCustom callback
         | None \<Rightarrow>
             (let effectivePreset = (if prefersReducedMotion then REDUCED_MOTION_PRESET else preset)
              in if effectivePreset = NoAnimation then SetOpacity ''0''
                 else case PRESET_MAP effectivePreset of
                        None \<Rightarrow> SetOpacity ''0''
                      | Some presetDef \<Rightarrow>
                          (let direction = getDirectionFromPosition (positionString pos);
                               dur = (if prefersReducedMotion
                                      then ANIMATION_REDUCED_MOTION_DURATION_MS
                                      else (case durationMs of Some d \<Rightarrow> d
                                            | None \<Rightarrow> ANIMATION_DEFAULT_DURATION_MS));
                               easingValue = (case easingArg of Some e \<Rightarrow> e
                                              | None \<Rightarrow> ANIMATION_DEFAULT_EASING)
                           in leave presetDef direction dur easingValue)))"

section \<open>toast-item.component.ts and toast-container.component.ts\<close>

subsection \<open>The ARIA role of a toast\<close>

text \<open>
  \<open>TOAST_ITEM_ROLES\<close> is an object literal read with a computed key. Such a read
  finds the object's own properties and, failing that, the members every object
  inherits from \<open>Object.prototype\<close>; only a key found in neither reads as
  \<open>undefined\<close> and reaches the \<open>??\<close> fallback. An inherited member is not a string,
  so the value read is a string or such a member.
\<close>

datatype PropertyValue = StringValue string | InheritedMember string

definition OBJECT_PROTOTYPE_MEMBERS :: "string list" where
  "OBJECT_PROTOTYPE_MEMBERS =
     [''constructor'', ''hasOwnProperty'', ''isPrototypeOf'', ''propertyIsEnumerable'',
      ''toLocaleString'', ''toString'', ''valueOf'', ''__proto__'',
      ''__defineGetter__'', ''__defineSetter__'', ''__lookupGetter__'', ''__lookupSetter__'']"

definition readProperty :: "(string \<times> string) list \<Rightarrow> string \<Rightarrow> PropertyValue option" where
  "readProperty obj key =
     (case map_of obj key of
        Some v \<Rightarrow> Some (StringValue v)
      | None \<Rightarrow> if key \<in> set OBJECT_PROTOTYPE_MEMBERS then Some (InheritedMember key) else None)"

definition TOAST_ITEM_ROLES :: "(string \<times> string) list" where
  "TOAST_ITEM_ROLES =
     [(''info'', ''status''), (''success'', ''status''),
      (''warning'', ''alert''), (''danger'', ''alert'')]"

fun toastTypeString :: "ToastType \<Rightarrow> string" where
  "toastTypeString Info = ''info''"
| "toastTypeString Success = ''success''"
| "toastTypeString Warning = ''warning''"
| "toastTypeString Danger = ''danger''"

definition roleForType :: "string \<Rightarrow> PropertyValue" where
  "roleForType toastType =
     (case readProperty TOAST_ITEM_ROLES toastType of
        Some v \<Rightarrow> v
      | None \<Rightarrow> StringValue ''status'')"

definition ariaRole :: "Toast \<Rightarrow> PropertyValue" where
  "ariaRole toast = roleForType (toastTypeString (t_type toast))"

subsection \<open>Hover handlers\<close>

text \<open>
  The handlers call the service; a handler is modelled by the calls it makes, in order.
  The item first reads \<open>this.toastService.pauseOnHover()\<close>. The service it is given
  may have that member (the component tests inject one whose \<open>pauseOnHover\<close> is a
  boolean signal) or not: the \<open>ToastService\<close> of this source declares none, the read
  is \<open>undefined\<close>, and calling it throws a \<open>TypeError\<close> before the handler has
  called anything. The member is the argument: \<open>Some flag\<close> or \<open>None\<close>.
\<close>

datatype ServiceCall = CallPauseTimer string | CallResumeTimer string

datatype HandlerError = TypeError

definition ToastService_pauseOnHover :: "bool option" where
  "ToastService_pauseOnHover = None"

definition item_handleMouseEnter :: "bool option \<Rightarrow> Toast \<Rightarrow> HandlerError + ServiceCall list" where
  "item_handleMouseEnter pauseOnHoverMember toast =
     (case pauseOnHoverMember of
        None \<Rightarrow> Inl TypeError
      | Some flag \<Rightarrow> Inr (if flag then [CallPauseTimer (t_id toast)] else []))"

definition item_handleMouseLeave :: "bool option \<Rightarrow> Toast \<Rightarrow> HandlerError + ServiceCall list" where
  "item_handleMouseLeave pauseOnHoverMember toast =
     (case pauseOnHoverMember of
        None \<Rightarrow> Inl TypeError
      | Some flag \<Rightarrow> Inr (if flag then [CallResumeTimer (t_id toast)] else []))"

definition container_handleMouseEnter :: "string \<Rightarrow> ServiceCall list" where
  "container_handleMouseEnter toastId = [CallPauseTimer toastId]"

definition container_handleMouseLeave :: "string \<Rightarrow> ServiceCall list" where
  "container_handleMouseLeave toastId = [CallResumeTimer toastId]"

text \<open>
  The container's template renders each toast as
  \<^verbatim>\<open><toastly-item [toast]="toast" (mouseenter)="handleMouseEnter(toast.id)"
  (mouseleave)="handleMouseLeave(toast.id)" />\<close>, and the item listens to the same two
  events on its host element. A pointer event on a toast the container rendered
  therefore runs the item's handler and the container's handler; a listener that throws
  has made no call and does not keep the other listener from running.
\<close>

definition callsMade :: "HandlerError + ServiceCall list \<Rightarrow> ServiceCall list" where
  "callsMade r = (case r of Inl _ \<Rightarrow> [] | Inr calls \<Rightarrow> calls)"

definition rendered_mouseenter :: "bool option \<Rightarrow> Toast \<Rightarrow> ServiceCall list" where
  "rendered_mouseenter pauseOnHoverMember toast =
     callsMade (item_handleMouseEnter pauseOnHoverMember toast)
       @ container_handleMouseEnter (t_id toast)"

definition rendered_mouseleave :: "bool option \<Rightarrow> Toast \<Rightarrow> ServiceCall list" where
  "rendered_mouseleave pauseOnHoverMember toast =
     callsMade (item_handleMouseLeave pauseOnHoverMember toast)
       @ container_handleMouseLeave (t_id toast)"

text \<open>The calls a handler makes, carried out on the service.\<close>

fun applyCall :: "ServiceCall \<Rightarrow> ServiceState \<Rightarrow> ServiceState" where
  "applyCall (CallPauseTimer toastId) s = pauseTimer toastId s"
| "applyCall (CallResumeTimer toastId) s = resumeTimer toastId s"

text \<open>The container shows the visible toasts whose position is its own.\<close>

definition resolvedPosition :: "ToastGlobalConfig \<Rightarrow> ToastPosition option \<Rightarrow> ToastPosition" where
  "resolvedPosition cfg positionInput =
     (case positionInput of Some p \<Rightarrow> p | None \<Rightarrow> position cfg)"

definition filteredToasts ::
  "ToastGlobalConfig \<Rightarrow> ToastPosition option \<Rightarrow> ServiceState \<Rightarrow> Toast list" where
  "filteredToasts cfg positionInput s =
     (let containerPosition = resolvedPosition cfg positionInput
      in filter (\<lambda>toast. t_position toast = containerPosition) (visibleToasts cfg s))"

section \<open>Observations used by the properties\<close>

definition failsWith :: "ToastError + 'a \<Rightarrow> ToastErrorCode \<Rightarrow> bool" where
  "failsWith r c = (case r of Inl e \<Rightarrow> err_code e = c | Inr _ \<Rightarrow> False)"

definition returns :: "ToastError + 'a \<Rightarrow> bool" where
  "returns r = (case r of Inl _ \<Rightarrow> False | Inr _ \<Rightarrow> True)"

text \<open>The read \<^verbatim>\<open>list[i].id\<close>: past the end the element is \<open>undefined\<close> and the read throws.\<close>

definition idAt :: "Toast list \<Rightarrow> nat \<Rightarrow> string option" where
  "idAt xs i = (if i < length xs then Some (t_id (xs ! i)) else None)"

text \<open>The fixture of the component tests: \<open>createMockToast\<close> with the type overridden.\<close>

definition createMockToast :: "ToastType \<Rightarrow> Toast" where
  "createMockToast ty =
     \<lparr> t_id = ''test-toast-1'', t_createdAt = 0, t_message = ''Test message'',
       t_title = Some ''Test Title'', t_type = ty, t_theme = Light,
       t_durationMs = Finite 5000, t_dismissible = True, t_actions = [],
       t_styleClass = None, t_iconTemplate = None, t_avatarUrl = None,
       t_progressPercent = None, t_position = BottomRight \<rparr>"

section \<open>Scenarios of the service tests\<close>

text \<open>Two toasts shown on a fresh service with the default configuration.\<close>

definition twoToasts :: ServiceState where
  "twoToasts =
     run DEFAULT_TOAST_CONFIG
       [Show 1 1 (messagePayload ''First''), Show 2 2 (messagePayload ''Second'')] initialState"

text \<open>One toast with \<^verbatim>\<open>durationMs: 1000\<close> on a fresh service.\<close>

definition oneSecondToast :: ServiceState where
  "oneSecondToast =
     run DEFAULT_TOAST_CONFIG
       [Show 1 1 (messagePayload ''Saved'' \<lparr> p_durationMs := Some (Finite 1000) \<rparr>)] initialState"

text \<open>
  The loop of the visibility test: \<^verbatim>\<open>for (let i = 0; i < 10; i++) service.info(`Toast ${i}`)\<close>,
  as the ten payloads \<open>info\<close> passes to \<open>show\<close>, the clock reading \<open>i\<close> at call \<open>i\<close>.
\<close>

definition tenInfoCalls :: "(nat \<times> nat \<times> ToastPayload) list" where
  "tenInfoCalls =
     map (\<lambda>i. (i, i, messagePayload (''Toast '' @ dec i) \<lparr> p_type := Some Info \<rparr>)) [0..<10]"

text \<open>One toast with \<^verbatim>\<open>durationMs: 0\<close> on a fresh service.\<close>

definition stickyToast :: ServiceState where
  "stickyToast =
     run DEFAULT_TOAST_CONFIG
       [Show 1 1 (messagePayload ''Stay'' \<lparr> p_durationMs := Some (Finite 0) \<rparr>)] initialState"

text \<open>
  The progress scenario: \<^verbatim>\<open>show({ message: 'Uploading', progressPercent: 0 })\<close>, then
  \<open>updateProgress(id, 50)\<close>.
\<close>

definition halfDone :: ServiceState where
  "halfDone =
     run DEFAULT_TOAST_CONFIG
       [Show 1 1 (messagePayload ''Uploading'' \<lparr> p_progressPercent := Some 0 \<rparr>),
        UpdateProgress ''toastly-1-1'' 50] initialState"

section \<open>An invariant of the service\<close>

text \<open>
  An id the service has issued so far: the prefix, a clock reading, a dash and a counter
  value that is at most the current counter.
\<close>

definition issuedId :: "nat \<Rightarrow> string \<Rightarrow> bool" where
  "issuedId counter i =
     (\<exists>now n. n \<le> counter \<and> i = TOAST_ID_PREFIX @ dec now @ ''-'' @ dec n)"

text \<open>
  Every toast and every pending timer carries an issued id; no two toasts share an id;
  a pending timer has a handle the host has already given out; and a pending timer
  whose toast is still in the collection was set with that toast's whole duration,
  which fails the test \<open>durationMs <= 0\<close>.
\<close>

definition serviceInvariant :: "ServiceState \<Rightarrow> bool" where
  "serviceInvariant s =
     ((\<forall>t \<in> set (toastsSignal s). issuedId (toastIdCounter s) (t_id t))
      \<and> distinct (map t_id (toastsSignal s))
      \<and> (\<forall>tm \<in> set (pendingTimeouts s).
            issuedId (toastIdCounter s) (timer_toastId tm)
            \<and> timer_handle tm < nextTimerHandle s
            \<and> (\<forall>t \<in> set (toastsSignal s).
                  t_id t = timer_toastId tm \<longrightarrow>
                  timer_delayMs tm = t_durationMs t \<and> \<not> js_le (t_durationMs t) (Finite 0))))"

section \<open>Text and strings\<close>

lemma digit_cases:
  "d < 10 \<Longrightarrow> d = 0 \<or> d = 1 \<or> d = 2 \<or> d = 3 \<or> d = 4 \<or> d = 5 \<or> d = 6 \<or> d = 7 \<or> d = 8 \<or> d = (9::nat)"
  by arith

lemma digit_char_inj: "d < 10 \<Longrightarrow> e < 10 \<Longrightarrow> digit_char d = digit_char e \<Longrightarrow> d = e"
  using digit_cases [of d] digit_cases [of e]
  by (auto simp: digit_char_def)

lemma digit_char_not_dash: "d < 10 \<Longrightarrow> CHR ''-'' \<noteq> digit_char d"
  using digit_cases [of d] by (auto simp: digit_char_def)

lemma dec_not_Nil: "dec n \<noteq> []"
  by (subst dec.simps) simp

lemma dash_notin_dec: "CHR ''-'' \<notin> set (dec n)"
proof (induction n rule: dec.induct)
  case (1 n)
  show ?case
  proof (cases "n < 10")
    case True
    then show ?thesis by (subst dec.simps) (simp add: digit_char_not_dash)
  next
    case False
    with 1 show ?thesis by (subst dec.simps) (simp add: digit_char_not_dash)
  qed
qed

text \<open>Two numbers with the same decimal text are the same number.\<close>

lemma dec_inj: "dec a = dec b \<Longrightarrow> a = b"
proof (induction a arbitrary: b rule: dec.induct)
  case (1 a)
  show ?case
  proof (cases "a < 10")
    case a: True
    show ?thesis
    proof (cases "b < 10")
      case True
      with a 1(2) show ?thesis by (simp add: dec.simps [of a] dec.simps [of b] digit_char_inj)
    next
      case False
      with a 1(2) dec_not_Nil [of "b div 10"] show ?thesis
        by (simp add: dec.simps [of a] dec.simps [of b])
    qed
  next
    case a: False
    show ?thesis
    proof (cases "b < 10")
      case True
      with a 1(2) dec_not_Nil [of "a div 10"] show ?thesis
        by (simp add: dec.simps [of a] dec.simps [of b])
    next
      case False
      with a 1(2) have eq: "dec (a div 10) = dec (b div 10)"
          "digit_char (a mod 10) = digit_char (b mod 10)"
        by (simp_all add: dec.simps [of a] dec.simps [of b])
      from 1(1) [OF a eq(1)] have "a div 10 = b div 10" .
      moreover from eq(2) have "a mod 10 = b mod 10" by (simp add: digit_char_inj)
      ultimately show ?thesis by (metis div_mult_mod_eq)
    qed
  qed
qed

lemma split_at_dash:
  assumes "xs @ CHR ''-'' # ys = xs' @ CHR ''-'' # ys'"
    and "CHR ''-'' \<notin> set ys" and "CHR ''-'' \<notin> set ys'"
  shows "ys = ys'"
  using assms
  by (auto simp: append_eq_append_conv2 Cons_eq_append_conv append_eq_Cons_conv)

text \<open>\<open>str_includes\<close> is the substring test.\<close>

lemma str_includes_iff: "str_includes s sub \<longleftrightarrow> (\<exists>xs ys. s = xs @ sub @ ys)"
proof (induction s)
  case Nil
  then show ?case by auto
next
  case (Cons c cs)
  have sw: "startsWith (c # cs) sub \<longleftrightarrow> (\<exists>ys. c # cs = sub @ ys)"
    unfolding startsWith_def
    by (metis append_eq_conv_conj append_take_drop_id)
  show ?case
  proof
    assume "str_includes (c # cs) sub"
    then consider "startsWith (c # cs) sub" | "str_includes cs sub" by auto
    then show "\<exists>xs ys. c # cs = xs @ sub @ ys"
    proof cases
      case 1
      with sw obtain ys where "c # cs = sub @ ys" by blast
      then have "c # cs = [] @ sub @ ys" by simp
      then show ?thesis by blast
    next
      case 2
      with Cons.IH obtain xs ys where "cs = xs @ sub @ ys" by blast
      then have "c # cs = (c # xs) @ sub @ ys" by simp
      then show ?thesis by blast
    qed
  next
    assume "\<exists>xs ys. c # cs = xs @ sub @ ys"
    then obtain xs ys where e: "c # cs = xs @ sub @ ys" by blast
    show "str_includes (c # cs) sub"
    proof (cases xs)
      case Nil
      with e have "c # cs = sub @ ys" by simp
      with sw have "startsWith (c # cs) sub" by blast
      then show ?thesis by simp
    next
      case (Cons x xs')
      with e have "cs = xs' @ sub @ ys" by simp
      with Cons.IH show ?thesis by auto
    qed
  qed
qed

section \<open>Toast ids\<close>

lemma toast_id_counter_inj:
  assumes "TOAST_ID_PREFIX @ dec a @ ''-'' @ dec n = TOAST_ID_PREFIX @ dec b @ ''-'' @ dec m"
  shows "n = m"
proof -
  from assms have "dec a @ CHR ''-'' # dec n = dec b @ CHR ''-'' # dec m" by simp
  then have "dec n = dec m" by (rule split_at_dash) (rule dash_notin_dec)+
  then show ?thesis by (rule dec_inj)
qed

lemma issuedId_mono: "issuedId c i \<Longrightarrow> c \<le> c' \<Longrightarrow> issuedId c' i"
proof -
  assume "issuedId c i" and le: "c \<le> c'"
  then obtain now n where "n \<le> c" "i = TOAST_ID_PREFIX @ dec now @ ''-'' @ dec n"
    unfolding issuedId_def by blast
  with le have "n \<le> c' \<and> i = TOAST_ID_PREFIX @ dec now @ ''-'' @ dec n" by simp
  then show "issuedId c' i" unfolding issuedId_def by blast
qed

lemma issuedId_fresh:
  assumes "issuedId c i"
  shows "i \<noteq> TOAST_ID_PREFIX @ dec now @ ''-'' @ dec (Suc c)"
proof
  assume eq: "i = TOAST_ID_PREFIX @ dec now @ ''-'' @ dec (Suc c)"
  from assms obtain now' n where n: "n \<le> c" and i: "i = TOAST_ID_PREFIX @ dec now' @ ''-'' @ dec n"
    unfolding issuedId_def by blast
  from eq i have "TOAST_ID_PREFIX @ dec now' @ ''-'' @ dec n
      = TOAST_ID_PREFIX @ dec now @ ''-'' @ dec (Suc c)" by simp
  then have "n = Suc c" by (rule toast_id_counter_inj)
  with n show False by simp
qed

lemma issuedId_new: "issuedId (Suc c) (TOAST_ID_PREFIX @ dec now @ ''-'' @ dec (Suc c))"
  unfolding issuedId_def by blast

section \<open>Comparisons of numbers\<close>

lemma js_lt_zero_not_le: "js_lt (Finite 0) d \<Longrightarrow> \<not> js_le d (Finite 0)"
  by (cases d) (auto simp: js_le_def js_eq_def)

lemma js_le_Finite [simp]: "js_le (Finite x) (Finite y) = (x \<le> y)"
  by (auto simp: js_le_def js_eq_def)

lemma js_eq_Finite [simp]: "js_eq (Finite x) (Finite y) = (x = y)"
  by (simp add: js_eq_def)

lemma js_le_zero_cases: "js_le d (Finite 0) \<longleftrightarrow> d = NegInfinity \<or> (\<exists>x. d = Finite x \<and> x \<le> 0)"
  by (cases d) (auto simp: js_le_def js_eq_def)

lemma js_not_lt_zero_cases:
  "\<not> js_lt d (Finite 0) \<longleftrightarrow> d = NaN \<or> d = PosInfinity \<or> (\<exists>x. d = Finite x \<and> 0 \<le> x)"
  by (cases d) auto

section \<open>Effects of the operations on the state\<close>

text \<open>Effects of the private helpers on the fields.\<close>

lemma clearTimeout_fields [simp]:
  "toastsSignal (clearTimeout h s) = toastsSignal s"
  "toastIdCounter (clearTimeout h s) = toastIdCounter s"
  "nextTimerHandle (clearTimeout h s) = nextTimerHandle s"
  "activeTimers (clearTimeout h s) = activeTimers s"
  "pendingTimeouts (clearTimeout h s) = filter (\<lambda>t. timer_handle t \<noteq> h) (pendingTimeouts s)"
  by (simp_all add: clearTimeout_def)

lemma clearTimerForToast_fields [simp]:
  "toastsSignal (clearTimerForToast i s) = toastsSignal s"
  "toastIdCounter (clearTimerForToast i s) = toastIdCounter s"
  "nextTimerHandle (clearTimerForToast i s) = nextTimerHandle s"
  by (simp_all add: clearTimerForToast_def Let_def split: option.splits)

lemma clearTimerForToast_pending:
  "set (pendingTimeouts (clearTimerForToast i s)) \<subseteq> set (pendingTimeouts s)"
  by (auto simp: clearTimerForToast_def Let_def split: option.splits)

lemma fold_clearTimeout_fields [simp]:
  "toastsSignal (fold (\<lambda>p. clearTimeout (snd p)) al s) = toastsSignal s"
  "toastIdCounter (fold (\<lambda>p. clearTimeout (snd p)) al s) = toastIdCounter s"
  "nextTimerHandle (fold (\<lambda>p. clearTimeout (snd p)) al s) = nextTimerHandle s"
  by (induction al arbitrary: s; simp)+

lemma fold_clearTimeout_pending:
  "pendingTimeouts (fold (\<lambda>p. clearTimeout (snd p)) al s)
     = filter (\<lambda>t. timer_handle t \<notin> snd ` set al) (pendingTimeouts s)"
proof (induction al arbitrary: s)
  case Nil
  then show ?case by simp
next
  case (Cons a al)
  have "filter (\<lambda>t. timer_handle t \<notin> snd ` set al)
          (filter (\<lambda>t. timer_handle t \<noteq> snd a) (pendingTimeouts s))
        = filter (\<lambda>t. timer_handle t \<notin> snd ` set (a # al)) (pendingTimeouts s)"
    by (simp add: conj_commute)
  with Cons.IH [of "clearTimeout (snd a) s"] show ?case by simp
qed

lemma clearAllTimers_fields [simp]:
  "toastsSignal (clearAllTimers s) = toastsSignal s"
  "toastIdCounter (clearAllTimers s) = toastIdCounter s"
  "nextTimerHandle (clearAllTimers s) = nextTimerHandle s"
  "activeTimers (clearAllTimers s) = []"
  "pendingTimeouts (clearAllTimers s)
     = filter (\<lambda>t. timer_handle t \<notin> snd ` set (activeTimers s)) (pendingTimeouts s)"
  by (simp_all add: clearAllTimers_def Let_def case_prod_unfold fold_clearTimeout_pending)

lemma scheduleAutoDismissIfNeeded_fields [simp]:
  "toastsSignal (scheduleAutoDismissIfNeeded t s) = toastsSignal s"
  "toastIdCounter (scheduleAutoDismissIfNeeded t s) = toastIdCounter s"
  by (simp_all add: scheduleAutoDismissIfNeeded_def setTimeout_def Let_def)

lemma scheduleAutoDismissIfNeeded_pending:
  "pendingTimeouts (scheduleAutoDismissIfNeeded t s) =
     (if js_le (t_durationMs t) (Finite 0) then pendingTimeouts s
      else pendingTimeouts s @
        [\<lparr> timer_handle = nextTimerHandle s, timer_toastId = t_id t,
           timer_delayMs = t_durationMs t \<rparr>])"
  "nextTimerHandle (scheduleAutoDismissIfNeeded t s) =
     (if js_le (t_durationMs t) (Finite 0) then nextTimerHandle s else Suc (nextTimerHandle s))"
  "activeTimers (scheduleAutoDismissIfNeeded t s) =
     (if js_le (t_durationMs t) (Finite 0) then activeTimers s
      else AList.update (t_id t) (nextTimerHandle s) (activeTimers s))"
  by (simp_all add: scheduleAutoDismissIfNeeded_def setTimeout_def Let_def)

text \<open>What \<open>show\<close> does once the payload is accepted.\<close>

lemma createToastFromPayload_fields [simp]:
  "t_id (fst (createToastFromPayload cfg n1 n2 p s))
     = TOAST_ID_PREFIX @ dec n1 @ ''-'' @ dec (Suc (toastIdCounter s))"
  "t_durationMs (fst (createToastFromPayload cfg n1 n2 p s)) = resolveDuration cfg (p_durationMs p)"
  "t_progressPercent (fst (createToastFromPayload cfg n1 n2 p s)) = p_progressPercent p"
  "snd (createToastFromPayload cfg n1 n2 p s) = s\<lparr> toastIdCounter := Suc (toastIdCounter s) \<rparr>"
  by (simp_all add: createToastFromPayload_def generateToastId_def Let_def)

lemma show_toast_rejected:
  "validatePayload p = Inl e \<Longrightarrow> show_toast cfg n1 n2 p s = (Inl e, s)"
  by (simp add: show_toast_def)

lemma show_toast_accepted:
  "validatePayload p = Inr u \<Longrightarrow>
   show_toast cfg n1 n2 p s =
     (Inr (t_id (fst (createToastFromPayload cfg n1 n2 p s))),
      scheduleAutoDismissIfNeeded (fst (createToastFromPayload cfg n1 n2 p s))
        (addToast cfg (fst (createToastFromPayload cfg n1 n2 p s))
           (s\<lparr> toastIdCounter := Suc (toastIdCounter s) \<rparr>)))"
  by (simp add: show_toast_def Let_def case_prod_unfold)

lemma addToast_fields [simp]:
  "toastsSignal (addToast cfg t s) = (if newestOnTop cfg then t # toastsSignal s else toastsSignal s @ [t])"
  "toastIdCounter (addToast cfg t s) = toastIdCounter s"
  "nextTimerHandle (addToast cfg t s) = nextTimerHandle s"
  "pendingTimeouts (addToast cfg t s) = pendingTimeouts s"
  "activeTimers (addToast cfg t s) = activeTimers s"
  by (simp_all add: addToast_def)

lemma removeToast_fields [simp]:
  "toastsSignal (removeToast i s) = filter (\<lambda>t. t_id t \<noteq> i) (toastsSignal s)"
  "toastIdCounter (removeToast i s) = toastIdCounter s"
  "nextTimerHandle (removeToast i s) = nextTimerHandle s"
  "pendingTimeouts (removeToast i s) = pendingTimeouts s"
  "activeTimers (removeToast i s) = activeTimers s"
  by (simp_all add: removeToast_def)

section \<open>The invariant holds in every reachable state\<close>

lemma invariant_initialState: "serviceInvariant initialState"
  by (simp add: serviceInvariant_def initialState_def)

lemma invariant_show:
  assumes inv: "serviceInvariant s"
  shows "serviceInvariant (snd (show_toast cfg n1 n2 p s))"
proof (cases "validatePayload p")
  case (Inl e)
  with inv show ?thesis by (simp add: show_toast_rejected)
next
  case (Inr u)
  define T where "T = fst (createToastFromPayload cfg n1 n2 p s)"
  define c where "c = toastIdCounter s"
  have idT: "t_id T = TOAST_ID_PREFIX @ dec n1 @ ''-'' @ dec (Suc c)"
    by (simp add: T_def c_def)
  have old_ids: "\<And>t. t \<in> set (toastsSignal s) \<Longrightarrow> issuedId c (t_id t)"
    using inv by (simp add: serviceInvariant_def c_def)
  have old_tm: "\<And>tm. tm \<in> set (pendingTimeouts s) \<Longrightarrow> issuedId c (timer_toastId tm)"
    using inv by (simp add: serviceInvariant_def c_def)
  have fresh_t: "\<And>t. t \<in> set (toastsSignal s) \<Longrightarrow> t_id t \<noteq> t_id T"
    using old_ids issuedId_fresh idT by metis
  have fresh_tm: "\<And>tm. tm \<in> set (pendingTimeouts s) \<Longrightarrow> timer_toastId tm \<noteq> t_id T"
    using old_tm issuedId_fresh idT by metis
  have newT: "issuedId (Suc c) (t_id T)" unfolding idT by (rule issuedId_new)
  have mono: "\<And>i. issuedId c i \<Longrightarrow> issuedId (Suc c) i" by (erule issuedId_mono) simp
  have dist: "distinct (map t_id (toastsSignal s))"
    using inv by (simp add: serviceInvariant_def)
  have hdl: "\<And>tm. tm \<in> set (pendingTimeouts s) \<Longrightarrow> timer_handle tm < nextTimerHandle s"
    using inv by (simp add: serviceInvariant_def)
  have dur: "\<And>tm t. tm \<in> set (pendingTimeouts s) \<Longrightarrow> t \<in> set (toastsSignal s) \<Longrightarrow>
      t_id t = timer_toastId tm \<Longrightarrow> timer_delayMs tm = t_durationMs t \<and> \<not> js_le (t_durationMs t) (Finite 0)"
    using inv by (simp add: serviceInvariant_def)
  have st: "snd (show_toast cfg n1 n2 p s) =
      scheduleAutoDismissIfNeeded T (addToast cfg T (s\<lparr> toastIdCounter := Suc c \<rparr>))"
    by (simp add: show_toast_accepted [OF Inr] T_def c_def)
  have set_toasts: "set (toastsSignal (snd (show_toast cfg n1 n2 p s))) = insert T (set (toastsSignal s))"
    by (simp add: st)
  have "\<forall>t \<in> set (toastsSignal (snd (show_toast cfg n1 n2 p s))).
          issuedId (toastIdCounter (snd (show_toast cfg n1 n2 p s))) (t_id t)"
    using old_ids mono newT by (auto simp: st)
  moreover have "distinct (map t_id (toastsSignal (snd (show_toast cfg n1 n2 p s))))"
  proof -
    have notin: "t_id T \<notin> set (map t_id (toastsSignal s))"
    proof
      assume "t_id T \<in> set (map t_id (toastsSignal s))"
      then obtain t where "t \<in> set (toastsSignal s)" "t_id t = t_id T" by auto
      with fresh_t show False by blast
    qed
    with dist show ?thesis by (simp add: st)
  qed
  moreover have "\<forall>tm \<in> set (pendingTimeouts (snd (show_toast cfg n1 n2 p s))).
            issuedId (toastIdCounter (snd (show_toast cfg n1 n2 p s))) (timer_toastId tm)
            \<and> timer_handle tm < nextTimerHandle (snd (show_toast cfg n1 n2 p s))
            \<and> (\<forall>t \<in> set (toastsSignal (snd (show_toast cfg n1 n2 p s))).
                  t_id t = timer_toastId tm \<longrightarrow>
                  timer_delayMs tm = t_durationMs t \<and> \<not> js_le (t_durationMs t) (Finite 0))"
  proof
    fix tm assume tm: "tm \<in> set (pendingTimeouts (snd (show_toast cfg n1 n2 p s)))"
    then consider (old) "tm \<in> set (pendingTimeouts s)"
      | (new) "\<not> js_le (t_durationMs T) (Finite 0)" "tm = \<lparr> timer_handle = nextTimerHandle s, timer_toastId = t_id T,
           timer_delayMs = t_durationMs T \<rparr>"
      by (auto simp: st scheduleAutoDismissIfNeeded_pending split: if_splits)
    then show "issuedId (toastIdCounter (snd (show_toast cfg n1 n2 p s))) (timer_toastId tm)
            \<and> timer_handle tm < nextTimerHandle (snd (show_toast cfg n1 n2 p s))
            \<and> (\<forall>t \<in> set (toastsSignal (snd (show_toast cfg n1 n2 p s))).
                  t_id t = timer_toastId tm \<longrightarrow>
                  timer_delayMs tm = t_durationMs t \<and> \<not> js_le (t_durationMs t) (Finite 0))"
    proof cases
      case old
      have "issuedId (Suc c) (timer_toastId tm)" using old old_tm mono by blast
      moreover have "timer_handle tm < nextTimerHandle (snd (show_toast cfg n1 n2 p s))"
        using hdl [OF old] by (simp add: st scheduleAutoDismissIfNeeded_pending)
      moreover have "\<forall>t \<in> insert T (set (toastsSignal s)).
                  t_id t = timer_toastId tm \<longrightarrow>
                  timer_delayMs tm = t_durationMs t \<and> \<not> js_le (t_durationMs t) (Finite 0)"
        using dur [OF old] fresh_tm [OF old] by auto
      ultimately show ?thesis unfolding set_toasts by (simp add: st)
    next
      case new
      have "issuedId (Suc c) (timer_toastId tm)" using new newT by simp
      moreover have "timer_handle tm < nextTimerHandle (snd (show_toast cfg n1 n2 p s))"
        using new by (simp add: st scheduleAutoDismissIfNeeded_pending)
      moreover have "\<forall>t \<in> insert T (set (toastsSignal s)).
                  t_id t = timer_toastId tm \<longrightarrow>
                  timer_delayMs tm = t_durationMs t \<and> \<not> js_le (t_durationMs t) (Finite 0)"
        using new fresh_t by auto
      ultimately show ?thesis unfolding set_toasts by (simp add: st)
    qed
  qed
  ultimately show ?thesis unfolding serviceInvariant_def by blast
qed

lemma invariant_distinct: "serviceInvariant s \<Longrightarrow> distinct (map t_id (toastsSignal s))"
  by (simp add: serviceInvariant_def)

lemma invariant_shrink:
  assumes inv: "serviceInvariant s"
    and ts: "set (toastsSignal s') \<subseteq> set (toastsSignal s)"
    and d: "distinct (map t_id (toastsSignal s'))"
    and ps: "set (pendingTimeouts s') \<subseteq> set (pendingTimeouts s)"
    and c: "toastIdCounter s' = toastIdCounter s"
    and n: "nextTimerHandle s' = nextTimerHandle s"
  shows "serviceInvariant s'"
proof -
  have "\<forall>t \<in> set (toastsSignal s'). issuedId (toastIdCounter s') (t_id t)"
    using inv ts c by (auto simp: serviceInvariant_def)
  moreover have "\<forall>tm \<in> set (pendingTimeouts s').
            issuedId (toastIdCounter s') (timer_toastId tm)
            \<and> timer_handle tm < nextTimerHandle s'
            \<and> (\<forall>t \<in> set (toastsSignal s').
                  t_id t = timer_toastId tm \<longrightarrow>
                  timer_delayMs tm = t_durationMs t \<and> \<not> js_le (t_durationMs t) (Finite 0))"
  proof (intro ballI conjI impI)
    fix tm assume "tm \<in> set (pendingTimeouts s')"
    with ps have tm: "tm \<in> set (pendingTimeouts s)" by blast
    from inv tm c show "issuedId (toastIdCounter s') (timer_toastId tm)"
      by (simp add: serviceInvariant_def)
    from inv tm n show "timer_handle tm < nextTimerHandle s'"
      by (simp add: serviceInvariant_def)
    fix t assume "t \<in> set (toastsSignal s')" and eq: "t_id t = timer_toastId tm"
    with ts have t: "t \<in> set (toastsSignal s)" by blast
    from inv tm t eq have "timer_delayMs tm = t_durationMs t \<and> \<not> js_le (t_durationMs t) (Finite 0)"
      by (simp add: serviceInvariant_def)
    then show "timer_delayMs tm = t_durationMs t" "\<not> js_le (t_durationMs t) (Finite 0)" by simp_all
  qed
  ultimately show ?thesis using d unfolding serviceInvariant_def by blast
qed

lemma invariant_clearTimerForToast:
  assumes "serviceInvariant s"
  shows "serviceInvariant (clearTimerForToast i s)"
  using assms
  by (rule invariant_shrink)
     (simp_all add: clearTimerForToast_pending invariant_distinct [OF assms])

lemma invariant_removeToast:
  assumes "serviceInvariant s"
  shows "serviceInvariant (removeToast i s)"
  using assms
  by (rule invariant_shrink)
     (auto simp: distinct_map_filter invariant_distinct [OF assms])

lemma invariant_dismiss: "serviceInvariant s \<Longrightarrow> serviceInvariant (dismiss i s)"
  by (simp add: dismiss_def invariant_removeToast invariant_clearTimerForToast)

lemma invariant_dismissAll: "serviceInvariant s \<Longrightarrow> serviceInvariant (dismissAll s)"
  unfolding dismissAll_def by (erule invariant_shrink) auto

lemma invariant_pauseTimer: "serviceInvariant s \<Longrightarrow> serviceInvariant (pauseTimer i s)"
  by (simp add: pauseTimer_def invariant_clearTimerForToast)

lemma invariant_clearTimeout:
  assumes "serviceInvariant s"
  shows "serviceInvariant (clearTimeout h s)"
  using assms
  by (rule invariant_shrink) (auto simp: invariant_distinct [OF assms])

lemma invariant_fireTimer: "serviceInvariant s \<Longrightarrow> serviceInvariant (fireTimer h s)"
  by (simp add: fireTimer_def invariant_dismiss invariant_clearTimeout split: option.splits)

lemma updateProgress_fields [simp]:
  "toastIdCounter (snd (updateProgress i v s)) = toastIdCounter s"
  "nextTimerHandle (snd (updateProgress i v s)) = nextTimerHandle s"
  "pendingTimeouts (snd (updateProgress i v s)) = pendingTimeouts s"
  "activeTimers (snd (updateProgress i v s)) = activeTimers s"
  "map t_id (toastsSignal (snd (updateProgress i v s))) = map t_id (toastsSignal s)"
  "map t_durationMs (toastsSignal (snd (updateProgress i v s))) = map t_durationMs (toastsSignal s)"
  by (auto simp: updateProgress_def split: sum.splits)

lemma updateProgress_member:
  assumes "t' \<in> set (toastsSignal (snd (updateProgress i v s)))"
  shows "\<exists>t \<in> set (toastsSignal s). t_id t' = t_id t \<and> t_durationMs t' = t_durationMs t"
  using assms by (auto simp: updateProgress_def split: sum.splits if_splits)

lemma invariant_updateProgress:
  assumes inv: "serviceInvariant s"
  shows "serviceInvariant (snd (updateProgress i v s))"
proof -
  let ?s' = "snd (updateProgress i v s)"
  have "\<forall>t \<in> set (toastsSignal ?s'). issuedId (toastIdCounter ?s') (t_id t)"
    using inv updateProgress_member [of _ i v s] by (fastforce simp: serviceInvariant_def)
  moreover have "distinct (map t_id (toastsSignal ?s'))"
    using inv by (simp add: serviceInvariant_def)
  moreover have "\<forall>tm \<in> set (pendingTimeouts ?s').
            issuedId (toastIdCounter ?s') (timer_toastId tm)
            \<and> timer_handle tm < nextTimerHandle ?s'
            \<and> (\<forall>t \<in> set (toastsSignal ?s').
                  t_id t = timer_toastId tm \<longrightarrow>
                  timer_delayMs tm = t_durationMs t \<and> \<not> js_le (t_durationMs t) (Finite 0))"
  proof (intro ballI conjI impI)
    fix tm assume tm: "tm \<in> set (pendingTimeouts ?s')"
    then have tm': "tm \<in> set (pendingTimeouts s)" by simp
    show "issuedId (toastIdCounter ?s') (timer_toastId tm)"
      using inv tm' by (simp add: serviceInvariant_def)
    show "timer_handle tm < nextTimerHandle ?s'"
      using inv tm' by (simp add: serviceInvariant_def)
    fix t' assume t': "t' \<in> set (toastsSignal ?s')" and eq: "t_id t' = timer_toastId tm"
    from updateProgress_member [OF t'] obtain t where
      t: "t \<in> set (toastsSignal s)" "t_id t' = t_id t" "t_durationMs t' = t_durationMs t" by blast
    with inv tm' eq have "timer_delayMs tm = t_durationMs t \<and> \<not> js_le (t_durationMs t) (Finite 0)"
      by (simp add: serviceInvariant_def)
    with t show "timer_delayMs tm = t_durationMs t'" "\<not> js_le (t_durationMs t') (Finite 0)" by simp_all
  qed
  ultimately show ?thesis unfolding serviceInvariant_def by blast
qed

lemma find_id_member:
  "find (\<lambda>t. t_id t = i) xs = Some t \<Longrightarrow> t \<in> set xs \<and> t_id t = i"
  by (induction xs) (auto split: if_splits)

lemma find_id_distinct:
  "distinct (map t_id xs) \<Longrightarrow> t \<in> set xs \<Longrightarrow> find (\<lambda>x. t_id x = t_id t) xs = Some t"
  by (induction xs) (auto simp: image_iff)

lemma find_id_None: "find (\<lambda>t. t_id t = i) xs = None \<longleftrightarrow> i \<notin> t_id ` set xs"
  by (induction xs) auto

lemma invariant_resumeTimer:
  assumes inv: "serviceInvariant s"
  shows "serviceInvariant (resumeTimer i s)"
proof (cases "find (\<lambda>t. t_id t = i) (toastsSignal s)")
  case None
  with inv show ?thesis by (simp add: resumeTimer_def)
next
  case (Some T)
  show ?thesis
  proof (cases "js_lt (Finite 0) (t_durationMs T)")
    case False
    with Some inv show ?thesis by (simp add: resumeTimer_def)
  next
    case True
    from find_id_member [OF Some] have T: "T \<in> set (toastsSignal s)" "t_id T = i" by simp_all
    have pos: "\<not> js_le (t_durationMs T) (Finite 0)" using True by (rule js_lt_zero_not_le)
    have st: "resumeTimer i s = scheduleAutoDismissIfNeeded T s"
      using Some True by (simp add: resumeTimer_def)
    have dist: "distinct (map t_id (toastsSignal s))" using inv by (simp add: serviceInvariant_def)
    have same: "\<And>t. t \<in> set (toastsSignal s) \<Longrightarrow> t_id t = t_id T \<Longrightarrow> t = T"
      using dist T(1) by (meson distinct_map inj_onD)
    let ?s' = "scheduleAutoDismissIfNeeded T s"
    have "\<forall>t \<in> set (toastsSignal ?s'). issuedId (toastIdCounter ?s') (t_id t)"
      using inv by (simp add: serviceInvariant_def)
    moreover have "distinct (map t_id (toastsSignal ?s'))" using dist by simp
    moreover have "\<forall>tm \<in> set (pendingTimeouts ?s').
            issuedId (toastIdCounter ?s') (timer_toastId tm)
            \<and> timer_handle tm < nextTimerHandle ?s'
            \<and> (\<forall>t \<in> set (toastsSignal ?s').
                  t_id t = timer_toastId tm \<longrightarrow>
                  timer_delayMs tm = t_durationMs t \<and> \<not> js_le (t_durationMs t) (Finite 0))"
    proof
      fix tm assume "tm \<in> set (pendingTimeouts ?s')"
      then consider (old) "tm \<in> set (pendingTimeouts s)"
        | (new) "tm = \<lparr> timer_handle = nextTimerHandle s, timer_toastId = t_id T,
             timer_delayMs = t_durationMs T \<rparr>"
        by (auto simp: scheduleAutoDismissIfNeeded_pending split: if_splits)
      then show "issuedId (toastIdCounter ?s') (timer_toastId tm)
            \<and> timer_handle tm < nextTimerHandle ?s'
            \<and> (\<forall>t \<in> set (toastsSignal ?s').
                  t_id t = timer_toastId tm \<longrightarrow>
                  timer_delayMs tm = t_durationMs t \<and> \<not> js_le (t_durationMs t) (Finite 0))"
      proof cases
        case old
        with inv pos show ?thesis
          by (simp add: serviceInvariant_def scheduleAutoDismissIfNeeded_pending less_Suc_eq)
      next
        case new
        have "issuedId (toastIdCounter s) (t_id T)"
          using inv T(1) by (simp add: serviceInvariant_def)
        moreover have "\<forall>t \<in> set (toastsSignal s). t_id t = t_id T \<longrightarrow>
            t_durationMs T = t_durationMs t \<and> \<not> js_le (t_durationMs t) (Finite 0)"
          using same pos by blast
        ultimately show ?thesis using new pos
          by (simp add: scheduleAutoDismissIfNeeded_pending)
      qed
    qed
    ultimately show ?thesis unfolding st serviceInvariant_def by blast
  qed
qed

lemma invariant_step: "serviceInvariant s \<Longrightarrow> serviceInvariant (step cfg e s)"
  by (cases e)
     (simp_all add: invariant_show invariant_dismiss invariant_dismissAll
        invariant_updateProgress invariant_pauseTimer invariant_resumeTimer invariant_fireTimer)

lemma reachable_invariant: "reachable cfg s \<Longrightarrow> serviceInvariant s"
  by (induction rule: reachable.induct) (simp_all add: invariant_initialState invariant_step)

lemma reachable_run: "reachable cfg s \<Longrightarrow> reachable cfg (run cfg evs s)"
  unfolding run_def by (induction evs arbitrary: s) (simp_all add: reachable_step)

section \<open>The scenarios, evaluated\<close>

lemma twoToasts_value:
  "twoToasts =
     \<lparr> toastIdCounter = 2,
       activeTimers = [(''toastly-1-1'', 1), (''toastly-2-2'', 2)],
       toastsSignal =
         [\<lparr> t_id = ''toastly-2-2'', t_createdAt = 2, t_message = ''Second'',
            t_title = None, t_type = Info, t_theme = Light,
            t_durationMs = Finite 5000, t_dismissible = True, t_actions = [],
            t_styleClass = None, t_iconTemplate = None, t_avatarUrl = None,
            t_progressPercent = None, t_position = BottomRight \<rparr>,
          \<lparr> t_id = ''toastly-1-1'', t_createdAt = 1, t_message = ''First'',
            t_title = None, t_type = Info, t_theme = Light,
            t_durationMs = Finite 5000, t_dismissible = True, t_actions = [],
            t_styleClass = None, t_iconTemplate = None, t_avatarUrl = None,
            t_progressPercent = None, t_position = BottomRight \<rparr>],
       pendingTimeouts =
         [\<lparr> timer_handle = 1, timer_toastId = ''toastly-1-1'', timer_delayMs = Finite 5000 \<rparr>,
          \<lparr> timer_handle = 2, timer_toastId = ''toastly-2-2'', timer_delayMs = Finite 5000 \<rparr>],
       nextTimerHandle = 3 \<rparr>"
  by code_simp

lemma oneSecondToast_value:
  "oneSecondToast =
     \<lparr> toastIdCounter = 1,
       activeTimers = [(''toastly-1-1'', 1)],
       toastsSignal =
         [\<lparr> t_id = ''toastly-1-1'', t_createdAt = 1, t_message = ''Saved'',
            t_title = None, t_type = Info, t_theme = Light,
            t_durationMs = Finite 1000, t_dismissible = True, t_actions = [],
            t_styleClass = None, t_iconTemplate = None, t_avatarUrl = None,
            t_progressPercent = None, t_position = BottomRight \<rparr>],
       pendingTimeouts =
         [\<lparr> timer_handle = 1, timer_toastId = ''toastly-1-1'', timer_delayMs = Finite 1000 \<rparr>],
       nextTimerHandle = 2 \<rparr>"
  by code_simp

lemma twoToasts_reachable: "reachable DEFAULT_TOAST_CONFIG twoToasts"
  unfolding twoToasts_def by (rule reachable_run) (rule reachable_init)

lemma oneSecondToast_reachable: "reachable DEFAULT_TOAST_CONFIG oneSecondToast"
  unfolding oneSecondToast_def by (rule reachable_run) (rule reachable_init)

lemma first_show_value:
  "show_toast DEFAULT_TOAST_CONFIG 1 1 (messagePayload ''First'') initialState =
     (Inr ''toastly-1-1'',
      run DEFAULT_TOAST_CONFIG [Show 1 1 (messagePayload ''First'')] initialState)"
  by code_simp

lemma second_show_value:
  "show_toast DEFAULT_TOAST_CONFIG 2 2 (messagePayload ''Second'')
     (run DEFAULT_TOAST_CONFIG [Show 1 1 (messagePayload ''First'')] initialState) =
     (Inr ''toastly-2-2'', twoToasts)"
  by code_simp

lemma stickyToast_value:
  "stickyToast =
     \<lparr> toastIdCounter = 1,
       activeTimers = [],
       toastsSignal =
         [\<lparr> t_id = ''toastly-1-1'', t_createdAt = 1, t_message = ''Stay'',
            t_title = None, t_type = Info, t_theme = Light,
            t_durationMs = Finite 0, t_dismissible = True, t_actions = [],
            t_styleClass = None, t_iconTemplate = None, t_avatarUrl = None,
            t_progressPercent = None, t_position = BottomRight \<rparr>],
       pendingTimeouts = [],
       nextTimerHandle = 1 \<rparr>"
  by code_simp

lemma stickyToast_reachable: "reachable DEFAULT_TOAST_CONFIG stickyToast"
  unfolding stickyToast_def by (rule reachable_run) (rule reachable_init)

section \<open>Dismissing and resuming\<close>

lemma clearTimerForToast_activeTimers_absent:
  "map_of (activeTimers (clearTimerForToast i s)) i = None"
  by (simp add: clearTimerForToast_def Let_def AList.delete_conv' split: option.splits)

lemma clearTimerForToast_absent:
  "map_of (activeTimers s) i = None \<Longrightarrow> clearTimerForToast i s = s"
  by (simp add: clearTimerForToast_def)

lemma dismiss_toasts: "toasts (dismiss i s) = filter (\<lambda>t. t_id t \<noteq> i) (toasts s)"
  by (simp add: dismiss_def toasts_def)

lemma dismiss_twice: "dismiss i (dismiss i s) = dismiss i s"
proof -
  have "clearTimerForToast i (dismiss i s) = dismiss i s"
    by (rule clearTimerForToast_absent)
       (simp add: dismiss_def clearTimerForToast_activeTimers_absent)
  moreover have "removeToast i (dismiss i s) = dismiss i s"
    by (simp add: dismiss_def removeToast_def)
  ultimately show ?thesis by (simp add: dismiss_def [of i "dismiss i s"])
qed

lemma distinct_filter_one:
  assumes "distinct (map f xs)" and "x \<in> set xs"
  shows "\<exists>before after. xs = before @ x # after \<and> filter (\<lambda>y. f y \<noteq> f x) xs = before @ after"
proof -
  from assms(2) obtain before after where xs: "xs = before @ x # after"
    by (meson split_list)
  with assms(1) have "\<forall>y \<in> set before \<union> set after. f y \<noteq> f x"
    by (fastforce simp: image_iff)
  then have "filter (\<lambda>y. f y \<noteq> f x) before = before" "filter (\<lambda>y. f y \<noteq> f x) after = after"
    by (simp_all add: filter_id_conv)
  with xs have "filter (\<lambda>y. f y \<noteq> f x) xs = before @ after" by simp
  with xs show ?thesis by blast
qed

lemma resumeTimer_present:
  assumes d: "distinct (map t_id (toastsSignal s))" and t: "t \<in> set (toastsSignal s)"
    and pos: "js_lt (Finite 0) (t_durationMs t)"
  shows "resumeTimer (t_id t) s = scheduleAutoDismissIfNeeded t s"
  using find_id_distinct [OF d t] pos by (simp add: resumeTimer_def)

section \<open>The window and successive shows\<close>

text \<open>The visibility window, for a positive maximum.\<close>

lemma slice_from_start: "0 \<le> n \<Longrightarrow> slice xs 0 n = take (nat n) xs"
  by (simp add: slice_def relativeIndex_def Let_def min_def)

lemma slice1_from_end: "1 \<le> n \<Longrightarrow> slice1 xs (- n) = drop (length xs - nat n) xs"
proof -
  assume n: "1 \<le> n"
  then have "nat (max (int (length xs) + - n) 0) = length xs - nat n" by (simp add: max_def) linarith
  with n show ?thesis by (simp add: slice1_def relativeIndex_def)
qed

lemma visibleToasts_newestOnTop:
  "newestOnTop cfg \<Longrightarrow> 0 \<le> maximumVisibleToasts cfg \<Longrightarrow>
   visibleToasts cfg s = take (nat (maximumVisibleToasts cfg)) (toasts s)"
  by (simp add: visibleToasts_def Let_def slice_from_start toasts_def)

lemma visibleToasts_oldestFirst:
  "\<not> newestOnTop cfg \<Longrightarrow> 1 \<le> maximumVisibleToasts cfg \<Longrightarrow>
   visibleToasts cfg s = drop (length (toasts s) - nat (maximumVisibleToasts cfg)) (toasts s)"
  by (simp add: visibleToasts_def Let_def slice1_from_end toasts_def)

lemma visibleToasts_length:
  "1 \<le> maximumVisibleToasts cfg \<Longrightarrow>
   int (length (visibleToasts cfg s)) \<le> maximumVisibleToasts cfg"
  by (cases "newestOnTop cfg") (simp_all add: visibleToasts_newestOnTop visibleToasts_oldestFirst)

lemma show_toast_Inr:
  assumes "show_toast cfg n1 n2 p s = (Inr i, s')"
  shows "i = t_id (fst (createToastFromPayload cfg n1 n2 p s))
     \<and> toastsSignal s' =
         (if newestOnTop cfg then fst (createToastFromPayload cfg n1 n2 p s) # toastsSignal s
          else toastsSignal s @ [fst (createToastFromPayload cfg n1 n2 p s)])"
proof (cases "validatePayload p")
  case (Inl e)
  with assms show ?thesis by (simp add: show_toast_rejected)
next
  case (Inr u)
  from assms show ?thesis unfolding show_toast_accepted [OF Inr] by auto
qed

lemma showEach_newestOnTop:
  assumes "newestOnTop cfg" and "\<forall>c \<in> set calls. validatePayload (snd (snd c)) = Inr ()"
  shows "length (fst (showEach cfg calls s)) = length calls
       \<and> map (\<lambda>t. Inr (t_id t)) (toastsSignal (snd (showEach cfg calls s)))
           = rev (fst (showEach cfg calls s)) @ map (\<lambda>t. Inr (t_id t)) (toastsSignal s)"
  using assms(2)
proof (induction calls arbitrary: s)
  case Nil
  then show ?case by simp
next
  case (Cons c calls)
  obtain n1 n2 p where c: "c = (n1, n2, p)" by (cases c) auto
  from Cons.prems c have v: "validatePayload p = Inr ()" by simp
  define s1 where "s1 = snd (show_toast cfg n1 n2 p s)"
  define T where "T = fst (createToastFromPayload cfg n1 n2 p s)"
  have sh: "show_toast cfg n1 n2 p s = (Inr (t_id T), s1)"
    unfolding s1_def T_def by (simp add: show_toast_accepted [OF v])
  have ts1: "toastsSignal s1 = T # toastsSignal s"
    unfolding s1_def T_def using assms(1) by (simp add: show_toast_accepted [OF v])
  from Cons.prems have "\<forall>c \<in> set calls. validatePayload (snd (snd c)) = Inr ()" by simp
  from Cons.IH [OF this, of s1] ts1 show ?case
    by (simp add: c sh case_prod_unfold Let_def)
qed

section \<open>Toasts without a timer\<close>

text \<open>A toast with no positive duration stays until it is dismissed by id or with all.\<close>

lemma show_toast_keeps:
  "t \<in> set (toastsSignal s) \<Longrightarrow> t \<in> set (toastsSignal (snd (show_toast cfg n1 n2 p s)))"
  by (cases "validatePayload p") (simp_all add: show_toast_rejected show_toast_accepted)

lemma updateProgress_keeps:
  assumes "t \<in> set (toastsSignal s)"
  shows "\<exists>t' \<in> set (toastsSignal (snd (updateProgress i v s))).
           t_id t' = t_id t \<and> t_durationMs t' = t_durationMs t"
proof (cases "validateProgressValue v")
  case (Inl e)
  with assms show ?thesis by (auto simp: updateProgress_def)
next
  case (Inr u)
  let ?f = "\<lambda>toast. if t_id toast = i then toast\<lparr> t_progressPercent := Some v \<rparr> else toast"
  from assms have "?f t \<in> set (map ?f (toastsSignal s))" by simp
  moreover have "t_id (?f t) = t_id t \<and> t_durationMs (?f t) = t_durationMs t" by simp
  ultimately show ?thesis unfolding updateProgress_def Inr by (simp del: set_map) blast
qed

lemma resumeTimer_toasts [simp]: "toastsSignal (resumeTimer i s) = toastsSignal s"
  by (simp add: resumeTimer_def split: option.splits)

lemma pauseTimer_toasts [simp]: "toastsSignal (pauseTimer i s) = toastsSignal s"
  by (simp add: pauseTimer_def)

lemma dismiss_toastsSignal [simp]:
  "toastsSignal (dismiss i s) = filter (\<lambda>t. t_id t \<noteq> i) (toastsSignal s)"
  by (simp add: dismiss_def)

lemma fireTimer_keeps:
  assumes inv: "serviceInvariant s" and t: "t \<in> set (toastsSignal s)" and d: "js_le (t_durationMs t) (Finite 0)"
  shows "t \<in> set (toastsSignal (fireTimer h s))"
proof (cases "find (\<lambda>tm. timer_handle tm = h) (pendingTimeouts s)")
  case None
  with t show ?thesis by (simp add: fireTimer_def)
next
  case (Some tm)
  then have "tm \<in> set (pendingTimeouts s)" by (auto simp: find_Some_iff)
  with inv t d have "timer_toastId tm \<noteq> t_id t"
    unfolding serviceInvariant_def by fastforce
  with Some t show ?thesis by (simp add: fireTimer_def)
qed

lemma step_keeps:
  assumes inv: "serviceInvariant s" and t: "t \<in> set (toastsSignal s)" and d: "js_le (t_durationMs t) (Finite 0)"
    and e: "e \<noteq> Dismiss (t_id t)" "e \<noteq> DismissAll"
  shows "\<exists>t' \<in> set (toastsSignal (step cfg e s)). t_id t' = t_id t \<and> t_durationMs t' = t_durationMs t"
proof (cases e)
  case (Show n1 n2 p)
  with t show ?thesis using show_toast_keeps by auto
next
  case (Dismiss i)
  with e t show ?thesis by auto
next
  case DismissAll
  with e show ?thesis by simp
next
  case (UpdateProgress i v)
  with updateProgress_keeps [OF t] show ?thesis by simp
next
  case (PauseTimer i)
  with t show ?thesis by auto
next
  case (ResumeTimer i)
  with t show ?thesis by auto
next
  case (TimerFires h)
  with fireTimer_keeps [OF inv t d] show ?thesis by auto
qed

lemma run_keeps:
  assumes "serviceInvariant s" and "t \<in> set (toastsSignal s)" and "js_le (t_durationMs t) (Finite 0)"
    and "\<forall>e \<in> set evs. e \<noteq> Dismiss (t_id t) \<and> e \<noteq> DismissAll"
  shows "\<exists>t' \<in> set (toastsSignal (run cfg evs s)). t_id t' = t_id t \<and> t_durationMs t' = t_durationMs t"
  using assms
proof (induction evs arbitrary: s t)
  case Nil
  then show ?case by (auto simp: run_def)
next
  case (Cons e evs)
  from Cons.prems have e: "e \<noteq> Dismiss (t_id t)" "e \<noteq> DismissAll" by simp_all
  from step_keeps [OF Cons.prems(1-3) e, of cfg] obtain t1 where
    t1: "t1 \<in> set (toastsSignal (step cfg e s))" "t_id t1 = t_id t" "t_durationMs t1 = t_durationMs t"
    by blast
  have inv1: "serviceInvariant (step cfg e s)" using Cons.prems(1) by (rule invariant_step)
  from Cons.prems t1 have "js_le (t_durationMs t1) (Finite 0)"
    "\<forall>e \<in> set evs. e \<noteq> Dismiss (t_id t1) \<and> e \<noteq> DismissAll" by simp_all
  from Cons.IH [OF inv1 t1(1) this] t1 show ?case by (simp add: run_def)
qed

lemma no_timer_without_duration:
  assumes "serviceInvariant s" and "t \<in> set (toastsSignal s)" and "js_le (t_durationMs t) (Finite 0)"
  shows "\<forall>tm \<in> set (pendingTimeouts s). timer_toastId tm \<noteq> t_id t"
  using assms unfolding serviceInvariant_def by fastforce

lemma resolveDuration_cases:
  "resolveDuration cfg None = defaultDurationMs cfg"
  "resolveDuration cfg (Some (Finite 0)) = Finite 0"
  "js_lt (Finite 0) d \<Longrightarrow> js_lt d (Finite TOAST_MINIMUM_DURATION_MS) \<Longrightarrow>
     resolveDuration cfg (Some d) = Finite TOAST_MINIMUM_DURATION_MS"
  "js_le (Finite TOAST_MINIMUM_DURATION_MS) d' \<Longrightarrow> resolveDuration cfg (Some d') = d'"
proof -
  show "resolveDuration cfg None = defaultDurationMs cfg" by (simp add: resolveDuration_def)
  show "resolveDuration cfg (Some (Finite 0)) = Finite 0" by (simp add: resolveDuration_def)
  show "resolveDuration cfg (Some d) = Finite TOAST_MINIMUM_DURATION_MS"
    if "js_lt (Finite 0) d" "js_lt d (Finite TOAST_MINIMUM_DURATION_MS)"
    using that by (cases d) (simp_all add: resolveDuration_def Math_max_def)
  show "resolveDuration cfg (Some d') = d'" if "js_le (Finite TOAST_MINIMUM_DURATION_MS) d'"
    using that
    by (cases d')
       (auto simp: resolveDuration_def Math_max_def js_le_def js_eq_def
          TOAST_MINIMUM_DURATION_MS_def)
qed

lemma validatePayload_duration:
  "validatePayload p = Inr u \<Longrightarrow> p_durationMs p = Some d \<Longrightarrow> \<not> js_lt d (Finite 0)"
  by (auto simp: validatePayload_def split: option.splits if_splits)

lemma resolveDuration_nonnegative:
  "\<not> js_lt d (Finite 0) \<Longrightarrow> d \<noteq> NaN \<Longrightarrow> js_le (Finite 0) (resolveDuration cfg (Some d))"
  by (cases d) (auto simp: resolveDuration_def Math_max_def js_le_def js_eq_def
        TOAST_MINIMUM_DURATION_MS_def)

section \<open>Validation (C1)\<close>

text \<open>
  C1, as stated, asks \<open>show\<close> to fail with \<open>INVALID_PROGRESS_VALUE\<close> for every
  progress value outside 0..100. \<open>validatePayload\<close> checks the duration first: a
  payload with duration \<open>-1\<close> and progress \<open>150\<close> fails with \<open>INVALID_DURATION\<close>.
\<close>

theorem show_progress_error_counterexample:
  "p_progressPercent (messagePayload ''Test''
       \<lparr> p_durationMs := Some (Finite (- 1)), p_progressPercent := Some 150 \<rparr>) = Some 150
   \<and> \<not> failsWith
       (fst (show_toast DEFAULT_TOAST_CONFIG 1 1
          (messagePayload ''Test'' \<lparr> p_durationMs := Some (Finite (- 1)), p_progressPercent := Some 150 \<rparr>)
          initialState))
       INVALID_PROGRESS_VALUE
   \<and> failsWith
       (fst (show_toast DEFAULT_TOAST_CONFIG 1 1
          (messagePayload ''Test'' \<lparr> p_durationMs := Some (Finite (- 1)), p_progressPercent := Some 150 \<rparr>)
          initialState))
       INVALID_DURATION"
  by (simp add: show_toast_def validatePayload_def failsWith_def createToastError_def
      messagePayload_def)

text \<open>
  C1 (amended): a payload with a negative \<open>durationMs\<close> makes \<open>show\<close> fail with
  \<open>INVALID_DURATION\<close>; a payload whose \<open>durationMs\<close> is absent or not negative (it
  fails the test \<open>durationMs < 0\<close>) and
  whose \<open>progressPercent\<close> lies outside 0..100 makes \<open>show\<close> fail with
  \<open>INVALID_PROGRESS_VALUE\<close>; \<open>updateProgress\<close> fails with \<open>INVALID_PROGRESS_VALUE\<close> for
  every value outside 0..100. A failed call leaves the whole state, and with it the
  stored progress of every toast, as it was. The boundary values 0 and 100 are accepted
  by both.
\<close>

theorem validation_errors:
  "(p_durationMs p1 = Some d \<and> js_lt d (Finite 0) \<longrightarrow>
      failsWith (fst (show_toast cfg n1 n2 p1 s)) INVALID_DURATION \<and>
      snd (show_toast cfg n1 n2 p1 s) = s)
   \<and> ((p_durationMs p2 = None \<or> (\<exists>d'. p_durationMs p2 = Some d' \<and> \<not> js_lt d' (Finite 0))) \<and>
       p_progressPercent p2 = Some v \<and> (v < 0 \<or> 100 < v) \<longrightarrow>
      failsWith (fst (show_toast cfg n1 n2 p2 s)) INVALID_PROGRESS_VALUE \<and>
      snd (show_toast cfg n1 n2 p2 s) = s)
   \<and> (w < 0 \<or> 100 < w \<longrightarrow>
      failsWith (fst (updateProgress i w s)) INVALID_PROGRESS_VALUE \<and>
      snd (updateProgress i w s) = s)
   \<and> ((p_durationMs p3 = None \<or> (\<exists>d'. p_durationMs p3 = Some d' \<and> \<not> js_lt d' (Finite 0))) \<and>
       (p_progressPercent p3 = Some 0 \<or> p_progressPercent p3 = Some 100) \<longrightarrow>
      returns (fst (show_toast cfg n1 n2 p3 s)))
   \<and> (b = 0 \<or> b = 100 \<longrightarrow> returns (fst (updateProgress i b s)))"
  by (auto simp: show_toast_def updateProgress_def validatePayload_def validateProgressValue_def
      failsWith_def returns_def createToastError_def PROGRESS_MINIMUM_PERCENT_def
      PROGRESS_MAXIMUM_PERCENT_def split: option.splits sum.splits prod.splits)

theorem validation_errors_witness:
  "failsWith (fst (show_toast DEFAULT_TOAST_CONFIG 1 1
       (messagePayload ''Test'' \<lparr> p_durationMs := Some (Finite (- 1000)) \<rparr>) halfDone)) INVALID_DURATION
   \<and> failsWith (fst (show_toast DEFAULT_TOAST_CONFIG 1 1
       (messagePayload ''Test'' \<lparr> p_progressPercent := Some 150 \<rparr>) halfDone))
       INVALID_PROGRESS_VALUE
   \<and> map t_progressPercent (toasts halfDone) = [Some 50]
   \<and> failsWith (fst (updateProgress ''toastly-1-1'' 150 halfDone)) INVALID_PROGRESS_VALUE
   \<and> snd (updateProgress ''toastly-1-1'' 150 halfDone) = halfDone
   \<and> returns (fst (show_toast DEFAULT_TOAST_CONFIG 1 1
       (messagePayload ''Test'' \<lparr> p_progressPercent := Some 0 \<rparr>) halfDone))
   \<and> returns (fst (updateProgress ''toastly-1-1'' 100 halfDone))"
proof -
  have p: "map t_progressPercent (toasts halfDone) = [Some 50]" by code_simp
  from validation_errors
    [of "messagePayload ''Test'' \<lparr> p_durationMs := Some (Finite (- 1000)) \<rparr>" "Finite (- 1000)"
        DEFAULT_TOAST_CONFIG 1 1 halfDone
        "messagePayload ''Test'' \<lparr> p_progressPercent := Some 150 \<rparr>" 150
        150 "''toastly-1-1''"
        "messagePayload ''Test'' \<lparr> p_progressPercent := Some 0 \<rparr>" 100] p
  show ?thesis by (simp add: messagePayload_def)
qed

section \<open>The visibility window (C2)\<close>

text \<open>
  C2 asks that \<open>visibleToasts\<close> never has more than \<open>maximumVisibleToasts\<close>
  elements and that, with \<open>newestOnTop\<close> off, the window is the last
  \<open>maximumVisibleToasts\<close> toasts. For a maximum of at least 1 this holds (the lemmas
  above). For a maximum of 0 with \<open>newestOnTop\<close> off, \<open>slice(-maxVisible)\<close> is
  \<open>slice(-0)\<close>, the whole array: two toasts are shown and both are visible, where
  the branch for \<open>newestOnTop\<close>, \<open>slice(0, 0)\<close>, shows none.
\<close>

theorem visibleToasts_zero_window_shows_all:
  "maximumVisibleToasts (DEFAULT_TOAST_CONFIG \<lparr> maximumVisibleToasts := 0, newestOnTop := False \<rparr>) = 0
   \<and> length (visibleToasts
        (DEFAULT_TOAST_CONFIG \<lparr> maximumVisibleToasts := 0, newestOnTop := False \<rparr>)
        (run (DEFAULT_TOAST_CONFIG \<lparr> maximumVisibleToasts := 0, newestOnTop := False \<rparr>)
           [Show 1 1 (messagePayload ''First''), Show 2 2 (messagePayload ''Second'')]
           initialState)) = 2
   \<and> length (visibleToasts
        (DEFAULT_TOAST_CONFIG \<lparr> maximumVisibleToasts := 0, newestOnTop := True \<rparr>)
        (run (DEFAULT_TOAST_CONFIG \<lparr> maximumVisibleToasts := 0, newestOnTop := True \<rparr>)
           [Show 1 1 (messagePayload ''First''), Show 2 2 (messagePayload ''Second'')]
           initialState)) = 0"
  by code_simp

section \<open>Newest on top (C3)\<close>

text \<open>
  C3, as stated, holds for no maximum below 1: with \<open>newestOnTop\<close> and
  \<open>maximumVisibleToasts = 0\<close> the window is empty after two accepted calls of
  \<open>show\<close>, so \<open>visibleToasts()[0]\<close> is not the second toast.
\<close>

theorem newest_first_visible_counterexample:
  "newestOnTop (DEFAULT_TOAST_CONFIG \<lparr> maximumVisibleToasts := 0 \<rparr>)
   \<and> fst (show_toast (DEFAULT_TOAST_CONFIG \<lparr> maximumVisibleToasts := 0 \<rparr>) 2 2 (messagePayload ''b'')
        (snd (show_toast (DEFAULT_TOAST_CONFIG \<lparr> maximumVisibleToasts := 0 \<rparr>) 1 1
           (messagePayload ''a'') initialState)))
       = Inr ''toastly-2-2''
   \<and> idAt (visibleToasts (DEFAULT_TOAST_CONFIG \<lparr> maximumVisibleToasts := 0 \<rparr>)
        (snd (show_toast (DEFAULT_TOAST_CONFIG \<lparr> maximumVisibleToasts := 0 \<rparr>) 2 2 (messagePayload ''b'')
           (snd (show_toast (DEFAULT_TOAST_CONFIG \<lparr> maximumVisibleToasts := 0 \<rparr>) 1 1
              (messagePayload ''a'') initialState))))) 0
       \<noteq> Some ''toastly-2-2''"
  by code_simp

text \<open>
  C3 (amended): with \<open>newestOnTop\<close> and \<open>maximumVisibleToasts\<close> at least 1, \<open>show\<close>
  prepends: after \<open>show(a)\<close> then \<open>show(b)\<close>, both accepted, the collection starts
  with b's toast and then a's, and \<open>visibleToasts()[0].id\<close> is the id \<open>show(b)\<close>
  returned. After ten accepted calls on a fresh service with
  \<open>maximumVisibleToasts = 5\<close> the collection has ten toasts, five are visible, and
  their ids are the ids the last five calls returned, newest first.
\<close>

theorem newest_first_visible:
  "(newestOnTop cfg \<and> 1 \<le> maximumVisibleToasts cfg
      \<and> show_toast cfg a1 a2 a s = (Inr ida, s1) \<and> show_toast cfg b1 b2 b s1 = (Inr idb, s2) \<longrightarrow>
      idAt (visibleToasts cfg s2) 0 = Some idb
      \<and> map t_id (toasts s2) = idb # ida # map t_id (toasts s))
   \<and> (newestOnTop cfg' \<and> maximumVisibleToasts cfg' = 5 \<and> length calls = 10
      \<and> (\<forall>c \<in> set calls. validatePayload (snd (snd c)) = Inr ()) \<longrightarrow>
      length (toasts (snd (showEach cfg' calls initialState))) = 10
      \<and> length (visibleToasts cfg' (snd (showEach cfg' calls initialState))) = 5
      \<and> map (\<lambda>t. Inr (t_id t)) (visibleToasts cfg' (snd (showEach cfg' calls initialState)))
          = rev (drop 5 (fst (showEach cfg' calls initialState))))"
proof (intro conjI impI)
  assume h: "newestOnTop cfg \<and> 1 \<le> maximumVisibleToasts cfg
      \<and> show_toast cfg a1 a2 a s = (Inr ida, s1) \<and> show_toast cfg b1 b2 b s1 = (Inr idb, s2)"
  then have top: "newestOnTop cfg" and m: "1 \<le> maximumVisibleToasts cfg"
    and sa: "show_toast cfg a1 a2 a s = (Inr ida, s1)"
    and sb: "show_toast cfg b1 b2 b s1 = (Inr idb, s2)" by simp_all
  define Ta where "Ta = fst (createToastFromPayload cfg a1 a2 a s)"
  define Tb where "Tb = fst (createToastFromPayload cfg b1 b2 b s1)"
  from show_toast_Inr [OF sa] top
  have a: "ida = t_id Ta" "toastsSignal s1 = Ta # toastsSignal s" unfolding Ta_def by simp_all
  from show_toast_Inr [OF sb] top
  have b: "idb = t_id Tb" "toastsSignal s2 = Tb # toastsSignal s1" unfolding Tb_def by simp_all
  from m have "0 < nat (maximumVisibleToasts cfg)" by simp
  then obtain k where k: "nat (maximumVisibleToasts cfg) = Suc k" by (cases "nat (maximumVisibleToasts cfg)") auto
  from top m have "visibleToasts cfg s2 = take (nat (maximumVisibleToasts cfg)) (toasts s2)"
    by (simp add: visibleToasts_newestOnTop)
  with b k show "idAt (visibleToasts cfg s2) 0 = Some idb"
    by (simp add: toasts_def idAt_def)
  from a b show "map t_id (toasts s2) = idb # ida # map t_id (toasts s)"
    by (simp add: toasts_def)
next
  assume h: "newestOnTop cfg' \<and> maximumVisibleToasts cfg' = 5 \<and> length calls = 10
      \<and> (\<forall>c \<in> set calls. validatePayload (snd (snd c)) = Inr ())"
  let ?r = "showEach cfg' calls initialState"
  from h have top: "newestOnTop cfg'" and m: "maximumVisibleToasts cfg' = 5"
    and len: "length calls = 10"
    and v: "\<forall>c \<in> set calls. validatePayload (snd (snd c)) = Inr ()" by simp_all
  from showEach_newestOnTop [OF top v, of initialState]
  have l: "length (fst ?r) = 10"
    and ids: "map (\<lambda>t. Inr (t_id t)) (toastsSignal (snd ?r)) = rev (fst ?r)"
    by (simp_all add: len initialState_def)
  from ids have "length (map (\<lambda>t. Inr (t_id t) :: ToastError + string) (toastsSignal (snd ?r)))
      = length (rev (fst ?r))" by simp
  with l have lt: "length (toastsSignal (snd ?r)) = 10" by simp
  then show "length (toasts (snd ?r)) = 10" by (simp add: toasts_def)
  have vis: "visibleToasts cfg' (snd ?r) = take 5 (toasts (snd ?r))"
    using top m by (simp add: visibleToasts_newestOnTop)
  with lt show "length (visibleToasts cfg' (snd ?r)) = 5" by (simp add: toasts_def)
  have "map (\<lambda>t. Inr (t_id t)) (visibleToasts cfg' (snd ?r)) = take 5 (rev (fst ?r))"
    unfolding vis toasts_def take_map [symmetric] ids ..
  also have "\<dots> = rev (drop 5 (fst ?r))" using l by (simp add: take_rev)
  finally show "map (\<lambda>t. Inr (t_id t)) (visibleToasts cfg' (snd ?r)) = rev (drop 5 (fst ?r))" .
qed

theorem newest_first_visible_witness:
  "newestOnTop DEFAULT_TOAST_CONFIG \<and> 1 \<le> maximumVisibleToasts DEFAULT_TOAST_CONFIG
   \<and> maximumVisibleToasts DEFAULT_TOAST_CONFIG = 5 \<and> length tenInfoCalls = 10
   \<and> idAt (visibleToasts DEFAULT_TOAST_CONFIG twoToasts) 0 = Some ''toastly-2-2''
   \<and> map t_id (toasts twoToasts) = [''toastly-2-2'', ''toastly-1-1'']
   \<and> length (toasts (snd (showEach DEFAULT_TOAST_CONFIG tenInfoCalls initialState))) = 10
   \<and> length (visibleToasts DEFAULT_TOAST_CONFIG
        (snd (showEach DEFAULT_TOAST_CONFIG tenInfoCalls initialState))) = 5
   \<and> map (\<lambda>t. Inr (t_id t))
        (visibleToasts DEFAULT_TOAST_CONFIG
           (snd (showEach DEFAULT_TOAST_CONFIG tenInfoCalls initialState)))
       = rev (drop 5 (fst (showEach DEFAULT_TOAST_CONFIG tenInfoCalls initialState)))"
proof -
  have c: "newestOnTop DEFAULT_TOAST_CONFIG \<and> 1 \<le> maximumVisibleToasts DEFAULT_TOAST_CONFIG
      \<and> maximumVisibleToasts DEFAULT_TOAST_CONFIG = 5"
    by (simp add: DEFAULT_TOAST_CONFIG_def MAXIMUM_VISIBLE_TOASTS_def)
  have l: "length tenInfoCalls = 10" by (simp add: tenInfoCalls_def)
  have v: "\<forall>c \<in> set tenInfoCalls. validatePayload (snd (snd c)) = Inr ()"
    by (simp add: tenInfoCalls_def validatePayload_def messagePayload_def)
  have e: "map t_id (toasts initialState) = []" by (simp add: toasts_def initialState_def)
  from newest_first_visible
    [of DEFAULT_TOAST_CONFIG 1 1 "messagePayload ''First''" initialState "''toastly-1-1''"
        "run DEFAULT_TOAST_CONFIG [Show 1 1 (messagePayload ''First'')] initialState"
        2 2 "messagePayload ''Second''" "''toastly-2-2''" twoToasts
        DEFAULT_TOAST_CONFIG tenInfoCalls]
    c l v first_show_value second_show_value e
  show ?thesis by simp
qed

section \<open>Dismissal (C4)\<close>

text \<open>
  C4: \<open>dismiss\<close> has no failure path (it is a total function of the state), and it is
  idempotent: a second call with the same id changes nothing at all; a call with an id
  that no toast has leaves the collection as it was; a call removes the toasts with
  that id and keeps the others in their order; and in a reachable state, where ids are
  unique, dismissing a toast of the collection removes exactly that toast.
\<close>

theorem dismiss_idempotent:
  "dismiss i (dismiss i s) = dismiss i s
   \<and> toasts (dismiss i s) = filter (\<lambda>t. t_id t \<noteq> i) (toasts s)
   \<and> (i \<notin> t_id ` set (toasts s) \<longrightarrow> toasts (dismiss i s) = toasts s)
   \<and> (reachable cfg s' \<and> t \<in> set (toasts s') \<longrightarrow>
        (\<exists>before after. toasts s' = before @ t # after
           \<and> toasts (dismiss (t_id t) s') = before @ after))"
proof (intro conjI impI)
  show "dismiss i (dismiss i s) = dismiss i s" by (rule dismiss_twice)
  show "toasts (dismiss i s) = filter (\<lambda>t. t_id t \<noteq> i) (toasts s)" by (rule dismiss_toasts)
  show "toasts (dismiss i s) = toasts s" if "i \<notin> t_id ` set (toasts s)"
    using that by (auto simp: dismiss_toasts filter_id_conv)
  show "\<exists>before after. toasts s' = before @ t # after
           \<and> toasts (dismiss (t_id t) s') = before @ after"
    if "reachable cfg s' \<and> t \<in> set (toasts s')"
  proof -
    from that have "serviceInvariant s'" by (blast intro: reachable_invariant)
    with that have "distinct (map t_id (toasts s'))" "t \<in> set (toasts s')"
      by (simp_all add: toasts_def invariant_distinct)
    from distinct_filter_one [OF this] show ?thesis by (simp add: dismiss_toasts)
  qed
qed

theorem dismiss_idempotent_witness:
  "reachable DEFAULT_TOAST_CONFIG twoToasts
   \<and> last (toasts twoToasts) \<in> set (toasts twoToasts)
   \<and> ''non-existent-id'' \<notin> t_id ` set (toasts twoToasts)
   \<and> dismiss ''non-existent-id'' (dismiss ''non-existent-id'' twoToasts)
       = dismiss ''non-existent-id'' twoToasts
   \<and> toasts (dismiss ''non-existent-id'' twoToasts) = toasts twoToasts
   \<and> (\<exists>before after. toasts twoToasts = before @ last (toasts twoToasts) # after
         \<and> toasts (dismiss (t_id (last (toasts twoToasts))) twoToasts) = before @ after)"
proof -
  have h1: "reachable DEFAULT_TOAST_CONFIG twoToasts \<and> last (toasts twoToasts) \<in> set (toasts twoToasts)"
    using twoToasts_reachable by (simp add: twoToasts_value toasts_def)
  have h2: "''non-existent-id'' \<notin> t_id ` set (toasts twoToasts)"
    by (simp add: twoToasts_value toasts_def)
  from dismiss_idempotent
    [of "''non-existent-id''" twoToasts DEFAULT_TOAST_CONFIG twoToasts "last (toasts twoToasts)"]
    h1 h2
  show ?thesis by blast
qed

section \<open>Resuming a timer (C5)\<close>

text \<open>
  C5: for every toast of the collection whose resolved duration is positive,
  \<open>resumeTimer\<close> sets a new timer, with a handle no pending timer has, for the whole
  resolved duration, and registers it for the toast. \<open>pauseTimer\<close> followed by
  \<open>resumeTimer\<close> on a toast with duration 1000 sets a timer of 1000 ms, and every
  timer then pending for that toast has the full 1000 ms: none runs for a remainder.
\<close>

theorem resumeTimer_full_duration:
  "(reachable cfg s \<and> t \<in> set (toasts s) \<and> js_lt (Finite 0) (t_durationMs t) \<longrightarrow>
      pendingTimeouts (resumeTimer (t_id t) s) =
        pendingTimeouts s @
          [\<lparr> timer_handle = nextTimerHandle s, timer_toastId = t_id t,
             timer_delayMs = t_durationMs t \<rparr>]
      \<and> map_of (activeTimers (resumeTimer (t_id t) s)) (t_id t) = Some (nextTimerHandle s)
      \<and> (\<forall>tm \<in> set (pendingTimeouts s). timer_handle tm \<noteq> nextTimerHandle s))
   \<and> (reachable cfg s' \<and> t' \<in> set (toasts s') \<and> t_durationMs t' = Finite 1000 \<longrightarrow>
      pendingTimeouts (resumeTimer (t_id t') (pauseTimer (t_id t') s')) =
        pendingTimeouts (pauseTimer (t_id t') s') @
          [\<lparr> timer_handle = nextTimerHandle s', timer_toastId = t_id t', timer_delayMs = Finite 1000 \<rparr>]
      \<and> map_of (activeTimers (resumeTimer (t_id t') (pauseTimer (t_id t') s'))) (t_id t')
          = Some (nextTimerHandle s')
      \<and> (\<forall>tm \<in> set (pendingTimeouts (resumeTimer (t_id t') (pauseTimer (t_id t') s'))).
            timer_toastId tm = t_id t' \<longrightarrow> timer_delayMs tm = Finite 1000))"
proof (intro conjI impI)
  assume a: "reachable cfg s \<and> t \<in> set (toasts s) \<and> js_lt (Finite 0) (t_durationMs t)"
  then have inv: "serviceInvariant s" by (blast intro: reachable_invariant)
  from a have ts: "t \<in> set (toastsSignal s)" and pos: "js_lt (Finite 0) (t_durationMs t)"
    by (simp_all add: toasts_def)
  have st: "resumeTimer (t_id t) s = scheduleAutoDismissIfNeeded t s"
    by (rule resumeTimer_present [OF invariant_distinct [OF inv] ts pos])
  note npos = js_lt_zero_not_le [OF pos]
  from npos show "pendingTimeouts (resumeTimer (t_id t) s) =
        pendingTimeouts s @
          [\<lparr> timer_handle = nextTimerHandle s, timer_toastId = t_id t,
             timer_delayMs = t_durationMs t \<rparr>]"
    by (simp add: st scheduleAutoDismissIfNeeded_pending)
  from npos show "map_of (activeTimers (resumeTimer (t_id t) s)) (t_id t) = Some (nextTimerHandle s)"
    by (simp add: st scheduleAutoDismissIfNeeded_pending AList.update_conv')
  from inv show "\<forall>tm \<in> set (pendingTimeouts s). timer_handle tm \<noteq> nextTimerHandle s"
    by (auto simp: serviceInvariant_def)
next
  assume a: "reachable cfg s' \<and> t' \<in> set (toasts s') \<and> t_durationMs t' = Finite 1000"
  let ?p = "pauseTimer (t_id t') s'"
  let ?r = "resumeTimer (t_id t') ?p"
  from a have rp: "reachable cfg ?p"
    using reachable_step [of cfg s' "PauseTimer (t_id t')"] by simp
  then have rr: "reachable cfg ?r"
    using reachable_step [of cfg ?p "ResumeTimer (t_id t')"] by simp
  have invp: "serviceInvariant ?p" using rp by (rule reachable_invariant)
  have tp: "t' \<in> set (toastsSignal ?p)" using a by (simp add: pauseTimer_def toasts_def)
  have pos: "js_lt (Finite 0) (t_durationMs t')" using a by simp
  have st: "?r = scheduleAutoDismissIfNeeded t' ?p"
    by (rule resumeTimer_present [OF invariant_distinct [OF invp] tp pos])
  have nx: "nextTimerHandle ?p = nextTimerHandle s'" by (simp add: pauseTimer_def)
  have d: "t_durationMs t' = Finite 1000" using a by simp
  show "pendingTimeouts ?r = pendingTimeouts ?p @
          [\<lparr> timer_handle = nextTimerHandle s', timer_toastId = t_id t', timer_delayMs = Finite 1000 \<rparr>]"
    unfolding st by (simp add: scheduleAutoDismissIfNeeded_pending nx d)
  show "map_of (activeTimers ?r) (t_id t') = Some (nextTimerHandle s')"
    unfolding st by (simp add: scheduleAutoDismissIfNeeded_pending AList.update_conv' nx d)
  have tr: "t' \<in> set (toastsSignal ?r)" using tp by (simp add: st)
  show "\<forall>tm \<in> set (pendingTimeouts ?r). timer_toastId tm = t_id t' \<longrightarrow> timer_delayMs tm = Finite 1000"
  proof (intro ballI impI)
    fix tm assume "tm \<in> set (pendingTimeouts ?r)" "timer_toastId tm = t_id t'"
    with reachable_invariant [OF rr] tr have "timer_delayMs tm = t_durationMs t'"
      unfolding serviceInvariant_def by metis
    with a show "timer_delayMs tm = Finite 1000" by simp
  qed
qed

theorem resumeTimer_full_duration_witness:
  "reachable DEFAULT_TOAST_CONFIG oneSecondToast
   \<and> hd (toasts oneSecondToast) \<in> set (toasts oneSecondToast)
   \<and> t_durationMs (hd (toasts oneSecondToast)) = Finite 1000
   \<and> t_id (hd (toasts oneSecondToast)) = ''toastly-1-1''
   \<and> pendingTimeouts (resumeTimer ''toastly-1-1'' oneSecondToast) =
        pendingTimeouts oneSecondToast @
          [\<lparr> timer_handle = 2, timer_toastId = ''toastly-1-1'', timer_delayMs = Finite 1000 \<rparr>]
   \<and> pendingTimeouts (resumeTimer ''toastly-1-1'' (pauseTimer ''toastly-1-1'' oneSecondToast)) =
        [\<lparr> timer_handle = 2, timer_toastId = ''toastly-1-1'', timer_delayMs = Finite 1000 \<rparr>]
   \<and> map_of (activeTimers (resumeTimer ''toastly-1-1'' (pauseTimer ''toastly-1-1'' oneSecondToast)))
        ''toastly-1-1'' = Some 2"
proof -
  have h: "reachable DEFAULT_TOAST_CONFIG oneSecondToast
      \<and> hd (toasts oneSecondToast) \<in> set (toasts oneSecondToast)
      \<and> t_durationMs (hd (toasts oneSecondToast)) = Finite 1000"
    using oneSecondToast_reachable by (simp add: oneSecondToast_value toasts_def)
  have i: "t_id (hd (toasts oneSecondToast)) = ''toastly-1-1''"
    by (simp add: oneSecondToast_value toasts_def)
  have n: "nextTimerHandle oneSecondToast = 2" by (simp add: oneSecondToast_value)
  have p: "pendingTimeouts (pauseTimer ''toastly-1-1'' oneSecondToast) = []"
    by (simp add: oneSecondToast_value pauseTimer_def clearTimerForToast_def)
  from resumeTimer_full_duration
    [of DEFAULT_TOAST_CONFIG oneSecondToast "hd (toasts oneSecondToast)"
        oneSecondToast "hd (toasts oneSecondToast)"] h
  show ?thesis by (simp add: i n p)
qed

section \<open>Hover handlers (C6)\<close>

text \<open>
  C6 asks that hovering a rendered toast calls \<open>pauseTimer\<close> and \<open>resumeTimer\<close> only
  when \<open>pauseOnHover\<close> is set. The item's handlers test the flag; the container's
  handlers, bound to the same events of every toast it renders, do not. With the flag
  off, hover-enter on a rendered toast still calls \<open>pauseTimer\<close> and hover-leave still
  calls \<open>resumeTimer\<close>, through the container; the hover-enter clears the pending
  timer of a toast shown with a duration of 1000 ms. With the service of this source,
  which has no \<open>pauseOnHover\<close> member, the item's handlers throw and the container's
  make the same calls.
\<close>

theorem hover_ignores_pauseOnHover_in_container:
  "item_handleMouseEnter (Some False) (createMockToast Info) = Inr []
   \<and> item_handleMouseLeave (Some False) (createMockToast Info) = Inr []
   \<and> rendered_mouseenter (Some False) (createMockToast Info) = [CallPauseTimer ''test-toast-1'']
   \<and> rendered_mouseleave (Some False) (createMockToast Info) = [CallResumeTimer ''test-toast-1'']
   \<and> item_handleMouseEnter ToastService_pauseOnHover (createMockToast Info) = Inl TypeError
   \<and> item_handleMouseLeave ToastService_pauseOnHover (createMockToast Info) = Inl TypeError
   \<and> rendered_mouseenter ToastService_pauseOnHover (createMockToast Info)
       = [CallPauseTimer ''test-toast-1'']
   \<and> rendered_mouseleave ToastService_pauseOnHover (createMockToast Info)
       = [CallResumeTimer ''test-toast-1'']
   \<and> pendingTimeouts oneSecondToast =
       [\<lparr> timer_handle = 1, timer_toastId = ''toastly-1-1'', timer_delayMs = Finite 1000 \<rparr>]
   \<and> pendingTimeouts
       (fold applyCall (rendered_mouseenter (Some False) (hd (toasts oneSecondToast)))
          oneSecondToast) = []"
  by code_simp

section \<open>Resolved duration (C7)\<close>

text \<open>
  C7, as stated, makes the resolved duration of every accepted payload non-negative.
  A payload without \<open>durationMs\<close> gets the configured \<open>defaultDurationMs\<close> as it is,
  and the configuration is never validated: with \<open>defaultDurationMs = -1\<close> the
  payload \<^verbatim>\<open>{ message: 'x' }\<close> is accepted and its toast has duration \<open>-1\<close>. And
  \<^verbatim>\<open>{ message: 'x', durationMs: NaN }\<close> is accepted too, \<open>NaN < 0\<close> being false: its
  toast has duration \<open>NaN\<close>, which is not non-negative, and a timer is set with it.
\<close>

theorem resolved_duration_counterexample:
  "validatePayload (messagePayload ''x'') = Inr ()
   \<and> fst (show_toast (DEFAULT_TOAST_CONFIG \<lparr> defaultDurationMs := Finite (- 1) \<rparr>) 1 1
        (messagePayload ''x'') initialState) = Inr ''toastly-1-1''
   \<and> map t_durationMs
        (toasts (snd (show_toast (DEFAULT_TOAST_CONFIG \<lparr> defaultDurationMs := Finite (- 1) \<rparr>) 1 1
           (messagePayload ''x'') initialState))) = [Finite (- 1)]
   \<and> \<not> js_le (Finite 0) (Finite (- 1))
   \<and> validatePayload (messagePayload ''x'' \<lparr> p_durationMs := Some NaN \<rparr>) = Inr ()
   \<and> fst (show_toast DEFAULT_TOAST_CONFIG 1 1
        (messagePayload ''x'' \<lparr> p_durationMs := Some NaN \<rparr>) initialState) = Inr ''toastly-1-1''
   \<and> map t_durationMs
        (toasts (snd (show_toast DEFAULT_TOAST_CONFIG 1 1
           (messagePayload ''x'' \<lparr> p_durationMs := Some NaN \<rparr>) initialState))) = [NaN]
   \<and> \<not> js_le (Finite 0) NaN
   \<and> map timer_delayMs
        (pendingTimeouts (snd (show_toast DEFAULT_TOAST_CONFIG 1 1
           (messagePayload ''x'' \<lparr> p_durationMs := Some NaN \<rparr>) initialState))) = [NaN]"
  by code_simp

text \<open>
  C7 (amended): for every accepted payload that requests a duration other than \<open>NaN\<close>,
  and for every accepted payload that requests none when the configured default
  duration is non-negative, the toast \<open>show\<close> creates has the resolved duration and it
  is non-negative. A requested 0 stays 0; a requested positive duration below
  \<open>TOAST_MINIMUM_DURATION_MS = 1000\<close> becomes 1000; a requested duration of at least
  1000 is kept. A toast of a reachable state whose duration is 0 has no pending timer,
  and whatever happens next, short of \<open>dismiss\<close> with its id or \<open>dismissAll\<close>, it is
  still in the collection and still has no pending timer: it is never auto-dismissed.
\<close>

theorem duration_resolution:
  "(validatePayload p = Inr ()
      \<and> ((\<exists>r. p_durationMs p = Some r \<and> r \<noteq> NaN)
          \<or> (p_durationMs p = None \<and> js_le (Finite 0) (defaultDurationMs cfg))) \<longrightarrow>
      (\<exists>t \<in> set (toasts (snd (show_toast cfg n1 n2 p s))).
          fst (show_toast cfg n1 n2 p s) = Inr (t_id t)
          \<and> t_durationMs t = resolveDuration cfg (p_durationMs p)
          \<and> js_le (Finite 0) (t_durationMs t)))
   \<and> resolveDuration cfg (Some (Finite 0)) = Finite 0
   \<and> (js_lt (Finite 0) d \<and> js_lt d (Finite TOAST_MINIMUM_DURATION_MS) \<longrightarrow>
        resolveDuration cfg (Some d) = Finite TOAST_MINIMUM_DURATION_MS)
   \<and> (js_le (Finite TOAST_MINIMUM_DURATION_MS) d' \<longrightarrow> resolveDuration cfg (Some d') = d')
   \<and> TOAST_MINIMUM_DURATION_MS = 1000
   \<and> (reachable cfg s0 \<and> t0 \<in> set (toasts s0) \<and> t_durationMs t0 = Finite 0
        \<and> (\<forall>e \<in> set evs. e \<noteq> Dismiss (t_id t0) \<and> e \<noteq> DismissAll) \<longrightarrow>
        (\<forall>tm \<in> set (pendingTimeouts s0). timer_toastId tm \<noteq> t_id t0)
        \<and> (\<forall>tm \<in> set (pendingTimeouts (run cfg evs s0)). timer_toastId tm \<noteq> t_id t0)
        \<and> (\<exists>t' \<in> set (toasts (run cfg evs s0)). t_id t' = t_id t0 \<and> t_durationMs t' = Finite 0))"
proof (intro conjI impI)
  assume h: "validatePayload p = Inr ()
      \<and> ((\<exists>r. p_durationMs p = Some r \<and> r \<noteq> NaN)
          \<or> (p_durationMs p = None \<and> js_le (Finite 0) (defaultDurationMs cfg)))"
  then have v: "validatePayload p = Inr ()" by simp
  define T where "T = fst (createToastFromPayload cfg n1 n2 p s)"
  have nonneg: "js_le (Finite 0) (resolveDuration cfg (p_durationMs p))"
  proof (cases "p_durationMs p")
    case None
    with h show ?thesis by (simp add: resolveDuration_def)
  next
    case (Some x)
    with h have "x \<noteq> NaN" by simp
    with validatePayload_duration [OF v Some] show ?thesis
      unfolding Some by (rule resolveDuration_nonnegative)
  qed
  have "T \<in> set (toasts (snd (show_toast cfg n1 n2 p s)))"
    by (simp add: show_toast_accepted [OF v] toasts_def T_def)
  moreover have "fst (show_toast cfg n1 n2 p s) = Inr (t_id T)"
    by (simp add: show_toast_accepted [OF v] T_def)
  moreover have "t_durationMs T = resolveDuration cfg (p_durationMs p)" by (simp add: T_def)
  ultimately show "\<exists>t \<in> set (toasts (snd (show_toast cfg n1 n2 p s))).
          fst (show_toast cfg n1 n2 p s) = Inr (t_id t)
          \<and> t_durationMs t = resolveDuration cfg (p_durationMs p)
          \<and> js_le (Finite 0) (t_durationMs t)"
    using nonneg by auto
next
  show "resolveDuration cfg (Some (Finite 0)) = Finite 0" by (rule resolveDuration_cases)
next
  assume "js_lt (Finite 0) d \<and> js_lt d (Finite TOAST_MINIMUM_DURATION_MS)"
  then show "resolveDuration cfg (Some d) = Finite TOAST_MINIMUM_DURATION_MS"
    by (simp add: resolveDuration_cases)
next
  assume "js_le (Finite TOAST_MINIMUM_DURATION_MS) d'"
  then show "resolveDuration cfg (Some d') = d'" by (rule resolveDuration_cases)
next
  show "TOAST_MINIMUM_DURATION_MS = 1000" by (rule TOAST_MINIMUM_DURATION_MS_def)
next
  assume h: "reachable cfg s0 \<and> t0 \<in> set (toasts s0) \<and> t_durationMs t0 = Finite 0
        \<and> (\<forall>e \<in> set evs. e \<noteq> Dismiss (t_id t0) \<and> e \<noteq> DismissAll)"
  then have r: "reachable cfg s0" and t: "t0 \<in> set (toastsSignal s0)"
    and d: "js_le (t_durationMs t0) (Finite 0)" and d0: "t_durationMs t0 = Finite 0"
    and e: "\<forall>e \<in> set evs. e \<noteq> Dismiss (t_id t0) \<and> e \<noteq> DismissAll"
    by (simp_all add: toasts_def)
  have inv: "serviceInvariant s0" using r by (rule reachable_invariant)
  have inv': "serviceInvariant (run cfg evs s0)"
    using reachable_run [OF r] by (rule reachable_invariant)
  from run_keeps [OF inv t d e, of cfg] obtain t' where
    t': "t' \<in> set (toastsSignal (run cfg evs s0))" "t_id t' = t_id t0" "t_durationMs t' = t_durationMs t0"
    by blast
  show "\<forall>tm \<in> set (pendingTimeouts s0). timer_toastId tm \<noteq> t_id t0"
    using no_timer_without_duration [OF inv t d] .
  show "\<forall>tm \<in> set (pendingTimeouts (run cfg evs s0)). timer_toastId tm \<noteq> t_id t0"
    using no_timer_without_duration [OF inv' t'(1)] t' d by simp
  show "\<exists>t' \<in> set (toasts (run cfg evs s0)). t_id t' = t_id t0 \<and> t_durationMs t' = Finite 0"
    using t' d0 by (auto simp: toasts_def)
qed

theorem duration_resolution_witness:
  "validatePayload (messagePayload ''Quick'' \<lparr> p_durationMs := Some (Finite 500) \<rparr>) = Inr ()
   \<and> resolveDuration DEFAULT_TOAST_CONFIG (Some (Finite 500)) = Finite 1000
   \<and> resolveDuration DEFAULT_TOAST_CONFIG (Some (Finite 3000)) = Finite 3000
   \<and> (\<exists>t \<in> set (toasts (snd (show_toast DEFAULT_TOAST_CONFIG 1 1
                 (messagePayload ''Quick'' \<lparr> p_durationMs := Some (Finite 500) \<rparr>) initialState))).
          t_durationMs t = Finite 1000)
   \<and> reachable DEFAULT_TOAST_CONFIG stickyToast
   \<and> t_durationMs (hd (toasts stickyToast)) = Finite 0
   \<and> (\<exists>t' \<in> set (toasts (run DEFAULT_TOAST_CONFIG
                 [PauseTimer ''toastly-1-1'', ResumeTimer ''toastly-1-1'', TimerFires 1,
                  UpdateProgress ''toastly-1-1'' 50, Dismiss ''toastly-9-9'']
                 stickyToast)).
          t_id t' = ''toastly-1-1'' \<and> t_durationMs t' = Finite 0)"
proof -
  have v: "validatePayload (messagePayload ''Quick'' \<lparr> p_durationMs := Some (Finite 500) \<rparr>) = Inr ()"
    by (simp add: validatePayload_def messagePayload_def)
  have p: "p_durationMs (messagePayload ''Quick'' \<lparr> p_durationMs := Some (Finite 500) \<rparr>)
      = Some (Finite 500)"
    by simp
  have m: "TOAST_MINIMUM_DURATION_MS = 1000" by (rule TOAST_MINIMUM_DURATION_MS_def)
  have s: "hd (toasts stickyToast) \<in> set (toasts stickyToast)"
    "t_durationMs (hd (toasts stickyToast)) = Finite 0"
    "t_id (hd (toasts stickyToast)) = ''toastly-1-1''"
    by (simp_all add: stickyToast_value toasts_def)
  from duration_resolution
    [of "messagePayload ''Quick'' \<lparr> p_durationMs := Some (Finite 500) \<rparr>" DEFAULT_TOAST_CONFIG 1 1
        initialState "Finite 500" "Finite 3000" stickyToast "hd (toasts stickyToast)"
        "[PauseTimer ''toastly-1-1'', ResumeTimer ''toastly-1-1'', TimerFires 1,
          UpdateProgress ''toastly-1-1'' 50, Dismiss ''toastly-9-9'']"]
    v p m s stickyToast_reachable
  show ?thesis by auto
qed

section \<open>Reduced motion (C8)\<close>

text \<open>
  C8: with the reduced-motion preference on and no custom callback for the phase,
  \<open>runEnterAnimation\<close> and \<open>runLeaveAnimation\<close> run the fade preset whatever preset
  was asked for, with the reduced-motion duration of 100 ms in place of the duration
  the caller passed.
\<close>

theorem reduced_motion_forces_fade:
  assumes "detectReducedMotion host"
    and "case custom of None \<Rightarrow> True | Some c \<Rightarrow> custom_enter c = None \<and> custom_leave c = None"
  shows "runEnterAnimation (detectReducedMotion host) pos preset custom durationMs easingArg =
           enter fadeAnimation (getDirectionFromPosition (positionString pos))
             ANIMATION_REDUCED_MOTION_DURATION_MS
             (case easingArg of Some e \<Rightarrow> e | None \<Rightarrow> ANIMATION_DEFAULT_EASING)
         \<and> runLeaveAnimation (detectReducedMotion host) pos preset custom durationMs easingArg =
           leave fadeAnimation (getDirectionFromPosition (positionString pos))
             ANIMATION_REDUCED_MOTION_DURATION_MS
             (case easingArg of Some e \<Rightarrow> e | None \<Rightarrow> ANIMATION_DEFAULT_EASING)
         \<and> ANIMATION_REDUCED_MOTION_DURATION_MS = 100"
  using assms
  by (auto simp: runEnterAnimation_def runLeaveAnimation_def REDUCED_MOTION_PRESET_def
        ANIMATION_REDUCED_MOTION_DURATION_MS_def Let_def split: option.splits)

theorem reduced_motion_forces_fade_witness:
  "detectReducedMotion
     \<lparr> windowDefined = True, matchMediaIsFunction = True, reduceMotionMatches = True \<rparr>
   \<and> runEnterAnimation
       (detectReducedMotion
          \<lparr> windowDefined = True, matchMediaIsFunction = True, reduceMotionMatches = True \<rparr>)
       BottomRight (Some Bounce) None (Some 500) None =
     Animate
       [\<lparr> kf_opacity = 0, kf_transform = None, kf_offset = None \<rparr>,
        \<lparr> kf_opacity = 1, kf_transform = None, kf_offset = None \<rparr>]
       \<lparr> duration = 100, easing = ANIMATION_DEFAULT_EASING, fill = ''forwards'' \<rparr>
   \<and> runLeaveAnimation
       (detectReducedMotion
          \<lparr> windowDefined = True, matchMediaIsFunction = True, reduceMotionMatches = True \<rparr>)
       BottomRight (Some Bounce) None (Some 500) None =
     Animate
       [\<lparr> kf_opacity = 1, kf_transform = None, kf_offset = None \<rparr>,
        \<lparr> kf_opacity = 0, kf_transform = None, kf_offset = None \<rparr>]
       \<lparr> duration = 100, easing = ANIMATION_DEFAULT_EASING, fill = ''forwards'' \<rparr>"
proof -
  have d: "detectReducedMotion
      \<lparr> windowDefined = True, matchMediaIsFunction = True, reduceMotionMatches = True \<rparr>"
    by (simp add: detectReducedMotion_def)
  from reduced_motion_forces_fade
    [of "\<lparr> windowDefined = True, matchMediaIsFunction = True, reduceMotionMatches = True \<rparr>"
        None BottomRight "Some Bounce" "Some 500" None] d
  show ?thesis by (simp add: fadeAnimation_def)
qed

section \<open>Animation direction (C9)\<close>

text \<open>
  C9: \<open>getDirectionFromPosition\<close> sends each of the six positions to one direction:
  \<open>top-left\<close> and \<open>bottom-left\<close> to left, \<open>top-right\<close> and \<open>bottom-right\<close> to right
  (the substring wins over the leading word), \<open>top-center\<close> to top and
  \<open>bottom-center\<close> to bottom.
\<close>

theorem getDirectionFromPosition_canonical:
  "getDirectionFromPosition (positionString TopLeft) = Left \<and>
   getDirectionFromPosition (positionString BottomLeft) = Left \<and>
   getDirectionFromPosition (positionString TopRight) = Right \<and>
   getDirectionFromPosition (positionString BottomRight) = Right \<and>
   getDirectionFromPosition (positionString TopCenter) = Top \<and>
   getDirectionFromPosition (positionString BottomCenter) = Bottom"
  by (simp add: getDirectionFromPosition_def startsWith_def)

section \<open>ARIA role (C10)\<close>

text \<open>
  C10, as stated, gives \<open>status\<close> to any type missing from the role table. The type
  string \<open>constructor\<close> is not a key of the table, and reading it from the table finds
  the member every object inherits: the role is that member, not \<open>status\<close>.
\<close>

theorem role_fallback_counterexample:
  "map_of TOAST_ITEM_ROLES ''constructor'' = None
   \<and> roleForType ''constructor'' = InheritedMember ''constructor''
   \<and> roleForType ''constructor'' \<noteq> StringValue ''status''"
  by (simp add: roleForType_def readProperty_def TOAST_ITEM_ROLES_def OBJECT_PROTOTYPE_MEMBERS_def)

text \<open>
  C10 (amended): the role of a toast is \<open>alert\<close> exactly when its type is \<open>warning\<close>
  or \<open>danger\<close>, and this holds of every type string; a toast of type \<open>info\<close> or
  \<open>success\<close> gets \<open>status\<close>; and a type string that is neither a key of the role
  table nor the name of a member objects inherit gets \<open>status\<close> from the fallback.
\<close>

theorem ariaRole_alert_iff:
  "(ariaRole toast = StringValue ''alert'' \<longleftrightarrow> t_type toast = Warning \<or> t_type toast = Danger) \<and>
   (t_type toast' = Info \<or> t_type toast' = Success \<longrightarrow> ariaRole toast' = StringValue ''status'') \<and>
   (roleForType k = StringValue ''alert'' \<longleftrightarrow> k = ''warning'' \<or> k = ''danger'') \<and>
   (k' \<notin> fst ` set TOAST_ITEM_ROLES \<and> k' \<notin> set OBJECT_PROTOTYPE_MEMBERS \<longrightarrow>
      roleForType k' = StringValue ''status'')"
proof (intro conjI impI)
  show "ariaRole toast = StringValue ''alert'' \<longleftrightarrow> t_type toast = Warning \<or> t_type toast = Danger"
    by (cases "t_type toast")
       (simp_all add: ariaRole_def roleForType_def readProperty_def TOAST_ITEM_ROLES_def)
  show "ariaRole toast' = StringValue ''status''"
    if "t_type toast' = Info \<or> t_type toast' = Success"
    using that by (auto simp: ariaRole_def roleForType_def readProperty_def TOAST_ITEM_ROLES_def)
  show "roleForType k = StringValue ''alert'' \<longleftrightarrow> k = ''warning'' \<or> k = ''danger''"
    by (auto simp: roleForType_def readProperty_def TOAST_ITEM_ROLES_def
          split: option.splits if_splits)
  show "roleForType k' = StringValue ''status''"
    if h: "k' \<notin> fst ` set TOAST_ITEM_ROLES \<and> k' \<notin> set OBJECT_PROTOTYPE_MEMBERS"
  proof -
    from h have "map_of TOAST_ITEM_ROLES k' = None" by (simp add: map_of_eq_None_iff)
    with h show ?thesis by (simp add: roleForType_def readProperty_def)
  qed
qed

theorem ariaRole_alert_iff_witness:
  "ariaRole (createMockToast Danger) = StringValue ''alert''
   \<and> ariaRole (createMockToast Success) = StringValue ''status''
   \<and> roleForType ''warning'' = StringValue ''alert''
   \<and> ''neutral'' \<notin> fst ` set TOAST_ITEM_ROLES
   \<and> ''neutral'' \<notin> set OBJECT_PROTOTYPE_MEMBERS
   \<and> roleForType ''neutral'' = StringValue ''status''"
proof -
  have n: "''neutral'' \<notin> fst ` set TOAST_ITEM_ROLES \<and> ''neutral'' \<notin> set OBJECT_PROTOTYPE_MEMBERS"
    by (simp add: TOAST_ITEM_ROLES_def OBJECT_PROTOTYPE_MEMBERS_def)
  have t: "t_type (createMockToast Danger) = Danger" "t_type (createMockToast Success) = Success"
    by (simp_all add: createMockToast_def)
  from ariaRole_alert_iff
    [of "createMockToast Danger" "createMockToast Success" "''warning''" "''neutral''"] n t
  show ?thesis by simp
qed

end
